theory Spec2Isabelle
  imports Main
begin

section \<open>Pagination polling loop of \<open>convertHTMLToPDF\<close> (html_to_pdf.js, lines 410--440)\<close>

text \<open>
  The loop keeps two variables, \<open>lastPageCount\<close> and \<open>stableCount\<close>, both initialised
  to 0. Each iteration first reads the clock (\<open>Date.now() - startTime\<close>), then, after the
  delay, samples the page count (\<open>querySelectorAll('.pagedjs_page').length\<close>). A simulated
  run is a list of polls; a poll is the pair of the elapsed time (in ms) read at the head of
  the iteration and the page count sampled in it.
\<close>

definition maxWaitTime :: int where
  "maxWaitTime = 120000"

record poll_state =
  lastPageCount :: nat
  stableCount :: nat

text \<open>
  How the loop leaves: the \<open>while\<close> condition \<open>stableCount < 3\<close> fails (\<open>Stable\<close>), the
  timeout \<open>break\<close> is taken (\<open>TimedOut\<close>), or the simulated polls are used up while the
  loop would still go on polling (\<open>Pending\<close>).
\<close>

datatype poll_exit = Stable | TimedOut | Pending

definition poll_init :: poll_state where
  "poll_init = \<lparr>lastPageCount = 0, stableCount = 0\<rparr>"

fun pollLoop :: "poll_state \<Rightarrow> (int \<times> nat) list \<Rightarrow> poll_exit \<times> poll_state \<times> nat" where
  "pollLoop st [] = (if stableCount st < 3 then (Pending, st, 0) else (Stable, st, 0))"
| "pollLoop st ((elapsed, currentPageCount) # rest) =
     (if \<not> stableCount st < 3 then (Stable, st, Suc (length rest))
      else if elapsed > maxWaitTime then (TimedOut, st, Suc (length rest))
      else if currentPageCount = lastPageCount st
        then pollLoop (st\<lparr>stableCount := stableCount st + 1\<rparr>) rest
        else pollLoop (st\<lparr>stableCount := 0, lastPageCount := currentPageCount\<rparr>) rest)"

text \<open>
  The third component of the result is the number of polls of the simulation that were
  not consumed when the loop left.
\<close>

definition poll_exit_of :: "poll_exit \<times> poll_state \<times> nat \<Rightarrow> poll_exit" where
  "poll_exit_of r = fst r"

definition poll_state_of :: "poll_exit \<times> poll_state \<times> nat \<Rightarrow> poll_state" where
  "poll_state_of r = fst (snd r)"

definition poll_unused :: "poll_exit \<times> poll_state \<times> nat \<Rightarrow> nat" where
  "poll_unused r = snd (snd r)"

text \<open>
  The spec's wording, "three consecutive identical counts": some three neighbouring samples
  of the sequence are equal.
\<close>

fun spec_three_identical :: "nat list \<Rightarrow> bool" where
  "spec_three_identical (a # b # c # xs) = ((a = b \<and> b = c) \<or> spec_three_identical (b # c # xs))"
| "spec_three_identical _ = False"

text \<open>
  What the loop counts: a check is unchanged when its sample equals the value recorded
  before it, so three unchanged checks in a row are four equal neighbours in the sequence
  that starts with the initial \<open>lastPageCount\<close>.
\<close>

fun four_identical :: "nat list \<Rightarrow> bool" where
  "four_identical (a # b # c # d # xs) =
     ((a = b \<and> b = c \<and> c = d) \<or> four_identical (b # c # d # xs))"
| "four_identical _ = False"


section \<open>Browser resolver (browser_helper.js)\<close>

subsection \<open>\<open>extractRevisionFromPath\<close>\<close>

text \<open>
  The regular expression \<open>/(?:chromium|chrome|chromium_headless_shell)-(\d+)/i\<close> is matched
  at the leftmost position where one of the three words (compared without regard to the
  case of ASCII letters), a hyphen and at least one decimal digit follow; the group is the
  longest run of digits there. \<open>parseInt\<close> reads it in base 10. Revisions are modelled as
  mathematical integers, which is what JavaScript numbers are on integers below \<open>2^53\<close>.
\<close>

definition is_digit :: "char \<Rightarrow> bool" where
  "is_digit c = (c \<in> set ''0123456789'')"

definition digit_value :: "char \<Rightarrow> int" where
  "digit_value c = of_char c - 48"

definition to_lower :: "char \<Rightarrow> char" where
  "to_lower c =
     (case map_of (zip ''ABCDEFGHIJKLMNOPQRSTUVWXYZ'' ''abcdefghijklmnopqrstuvwxyz'') c of
        Some l \<Rightarrow> l
      | None \<Rightarrow> c)"

definition parseInt :: "string \<Rightarrow> int" where
  "parseInt ds = foldl (\<lambda>acc d. 10 * acc + digit_value d) 0 ds"

definition starts_with_ci :: "string \<Rightarrow> string \<Rightarrow> bool" where
  "starts_with_ci pat s =
     (length pat \<le> length s \<and> map to_lower (take (length pat) s) = pat)"

definition match_alternative :: "string \<Rightarrow> string \<Rightarrow> string option" where
  "match_alternative alt s =
     (if starts_with_ci (alt @ ''-'') s
      then (let ds = takeWhile is_digit (drop (length alt + 1) s)
            in if ds = [] then None else Some ds)
      else None)"

definition match_here :: "string \<Rightarrow> string option" where
  "match_here s =
     (case match_alternative ''chromium'' s of
        Some ds \<Rightarrow> Some ds
      | None \<Rightarrow>
          (case match_alternative ''chrome'' s of
             Some ds \<Rightarrow> Some ds
           | None \<Rightarrow> match_alternative ''chromium_headless_shell'' s))"

fun match_first :: "string \<Rightarrow> string option" where
  "match_first [] = None"
| "match_first (c # cs) =
     (case match_here (c # cs) of Some ds \<Rightarrow> Some ds | None \<Rightarrow> match_first cs)"

definition extractRevisionFromPath :: "string option \<Rightarrow> int option" where
  "extractRevisionFromPath input =
     (case input of
        None \<Rightarrow> None
      | Some s \<Rightarrow> if s = [] then None else map_option parseInt (match_first s))"

subsection \<open>The environment the resolver reads\<close>

text \<open>
  The resolver reads the file system (\<open>fs.existsSync\<close>, \<open>fs.accessSync(_, X_OK)\<close>), the
  process environment, the Playwright module and the results of the directory scans
  \<open>getBrowserCacheDirectories\<close>, \<open>collectCacheExecutables\<close> and \<open>collectSystemBrowsers\<close>.
  The scans only read directories and run \<open>command -v\<close>; their results are fields of the
  environment. \<open>'h\<close> is the type of Playwright's \<open>chromium\<close> object.
\<close>

record file_attr =
  xOK :: bool
  readable :: bool

record 'h world =
  files :: "string \<rightharpoonup> file_attr"
  environ :: "string \<rightharpoonup> string"
  playwright :: "'h option"
  chromiumExecutablePath :: "'h \<Rightarrow> string option"
  browserCacheDirectories :: "string list"
  cacheExecutables :: "string \<Rightarrow> (string \<times> int option) list"
  systemBrowsers :: "string list"

text \<open>The empty string names no file: both calls fail on it.\<close>

definition existsSync :: "'h world \<Rightarrow> string \<Rightarrow> bool" where
  "existsSync w p = (p \<noteq> [] \<and> files w p \<noteq> None)"

definition accessSync_X_OK :: "'h world \<Rightarrow> string \<Rightarrow> bool" where
  "accessSync_X_OK w p =
     (p \<noteq> [] \<and> (case files w p of None \<Rightarrow> False | Some a \<Rightarrow> xOK a))"

datatype error = PLAYWRIGHT_NOT_FOUND | INSTALL_FAILED | READ_FAILED | BROWSER_ERROR string

definition loadPlaywright :: "'h world \<Rightarrow> error + 'h" where
  "loadPlaywright w = (case playwright w of None \<Rightarrow> Inl PLAYWRIGHT_NOT_FOUND | Some h \<Rightarrow> Inr h)"

definition getDefaultChromiumPath :: "'h world \<Rightarrow> 'h option \<Rightarrow> string option" where
  "getDefaultChromiumPath w chromiumInstance =
     (case chromiumInstance of None \<Rightarrow> None | Some h \<Rightarrow> chromiumExecutablePath w h)"

subsection \<open>\<open>findExistingChromium\<close>\<close>

datatype source = SrcDefault | SrcEnv | SrcCache | SrcSystem | SrcInstall | SrcMissing

record candidate =
  path :: string
  revision :: "int option"
  source :: source

record scan_state =
  seen :: "string list"
  candidates :: "candidate list"

definition addCandidate ::
    "'h world \<Rightarrow> string \<Rightarrow> int option \<Rightarrow> source \<Rightarrow> scan_state \<Rightarrow> scan_state" where
  "addCandidate w candidatePath candidateRevision candidateSource st =
     (if candidatePath = [] \<or> candidatePath \<in> set (seen st) then st
      else if \<not> accessSync_X_OK w candidatePath then st
      else st\<lparr>candidates := candidates st @ [\<lparr>path = candidatePath, revision = candidateRevision,
                                                   source = candidateSource\<rparr>],
              seen := seen st @ [candidatePath]\<rparr>)"

definition addEnvCandidate :: "'h world \<Rightarrow> string \<Rightarrow> scan_state \<Rightarrow> scan_state" where
  "addEnvCandidate w envName st =
     (case environ w envName of
        None \<Rightarrow> st
      | Some v \<Rightarrow> if v = [] then st else addCandidate w v None SrcEnv st)"

definition addCacheDirectory :: "'h world \<Rightarrow> string \<Rightarrow> scan_state \<Rightarrow> scan_state" where
  "addCacheDirectory w dir st =
     fold (\<lambda>entry. addCandidate w (fst entry) (snd entry) SrcCache) (cacheExecutables w dir) st"

definition collectCandidates :: "'h world \<Rightarrow> candidate list" where
  "collectCandidates w =
     (let st0 = \<lparr>seen = [], candidates = []\<rparr>;
          st1 = fold (addEnvCandidate w)
                  [''PLAYWRIGHT_CHROMIUM_PATH'', ''CHROMIUM_PATH'', ''BROWSER_PATH''] st0;
          st2 = fold (addCacheDirectory w) (browserCacheDirectories w) st1;
          st3 = fold (\<lambda>cmdPath. addCandidate w cmdPath None SrcSystem) (systemBrowsers w) st2
      in candidates st3)"

definition MAX_SAFE_INTEGER :: int where
  "MAX_SAFE_INTEGER = 9007199254740991"

definition score :: "int option \<Rightarrow> candidate \<Rightarrow> int" where
  "score expectedRevision c =
     (if expectedRevision \<noteq> None \<and> revision c \<noteq> None
        then \<bar>the (revision c) - the expectedRevision\<bar>
      else if revision c \<noteq> None then 100000 - the (revision c)
      else MAX_SAFE_INTEGER)"

text \<open>\<open>a.revision || 0\<close>: a missing revision counts as 0.\<close>

definition revision_or_zero :: "candidate \<Rightarrow> int" where
  "revision_or_zero c = (case revision c of None \<Rightarrow> 0 | Some r \<Rightarrow> r)"

definition compareCandidates :: "int option \<Rightarrow> candidate \<Rightarrow> candidate \<Rightarrow> int" where
  "compareCandidates expectedRevision a b =
     (let diff = score expectedRevision a - score expectedRevision b
      in if diff \<noteq> 0 then diff else revision_or_zero b - revision_or_zero a)"

text \<open>
  \<open>Array.prototype.sort\<close> with a comparator: the result is ordered by the comparator and
  elements that compare equal keep their order. The stable insertion sort below computes
  that list.
\<close>

fun insert_by :: "('a \<Rightarrow> 'a \<Rightarrow> int) \<Rightarrow> 'a \<Rightarrow> 'a list \<Rightarrow> 'a list" where
  "insert_by cmp x [] = [x]"
| "insert_by cmp x (y # ys) =
     (if cmp x y \<le> 0 then x # y # ys else y # insert_by cmp x ys)"

definition sort_by :: "('a \<Rightarrow> 'a \<Rightarrow> int) \<Rightarrow> 'a list \<Rightarrow> 'a list" where
  "sort_by cmp xs = foldr (insert_by cmp) xs []"

definition rankCandidates :: "int option \<Rightarrow> candidate list \<Rightarrow> candidate list" where
  "rankCandidates expectedRevision cs = sort_by (compareCandidates expectedRevision) cs"

definition selectCandidate :: "int option \<Rightarrow> candidate list \<Rightarrow> candidate option" where
  "selectCandidate expectedRevision cs =
     (if length cs = 0 then None
      else (case rankCandidates expectedRevision cs of [] \<Rightarrow> None | c # _ \<Rightarrow> Some c))"

definition findExistingChromium :: "'h world \<Rightarrow> int option \<Rightarrow> candidate option" where
  "findExistingChromium w expectedRevision = selectCandidate expectedRevision (collectCandidates w)"


subsection \<open>\<open>resolveChromium\<close>\<close>

datatype status = StatusOk | StatusFallback | StatusInstalled | StatusMissing

record resolution =
  status :: status
  executablePath :: string
  revision :: "int option"
  expectedRevision :: "int option"
  isFallback :: bool
  source :: source

record 'h options =
  chromium :: "'h option"
  allowInstall :: bool

text \<open>
  What the resolver does besides returning: it scans for candidates
  (\<open>findExistingChromium\<close>) and it runs the installer
  (\<open>spawnSync('npx', ['playwright', 'install', 'chromium'])\<close>). The installer is a
  parameter: it returns the exit status of the child process (\<open>None\<close> when there is none)
  and the environment it leaves behind.
\<close>

datatype event =
    ScanCandidates
  | RunInstaller
  | ResolveBrowser
  | LaunchBrowser
  | RunConversion
  | CloseBrowser

type_synonym 'h installer = "'h world \<Rightarrow> int option \<times> 'h world"

definition path_exists :: "'h world \<Rightarrow> string option \<Rightarrow> bool" where
  "path_exists w p = (case p of None \<Rightarrow> False | Some s \<Rightarrow> s \<noteq> [] \<and> existsSync w s)"

text \<open>\<open>fallback.revision || null\<close> and \<open>expectedPath || ''\<close>.\<close>

definition revision_or_null :: "int option \<Rightarrow> int option" where
  "revision_or_null r = (case r of None \<Rightarrow> None | Some n \<Rightarrow> if n = 0 then None else Some n)"

definition path_or_empty :: "string option \<Rightarrow> string" where
  "path_or_empty p = (case p of None \<Rightarrow> [] | Some s \<Rightarrow> s)"

definition resolveWith ::
    "'h installer \<Rightarrow> 'h world \<Rightarrow> 'h \<Rightarrow> bool \<Rightarrow> event list \<times> 'h world \<times> (error + resolution)" where
  "resolveWith spawnInstall w chromiumObj allowInst =
     (let expectedPath = getDefaultChromiumPath w (Some chromiumObj);
          expectedRev = extractRevisionFromPath expectedPath
      in if path_exists w expectedPath
         then ([], w,
               Inr \<lparr>status = StatusOk, executablePath = the expectedPath,
                    revision = extractRevisionFromPath expectedPath,
                    expectedRevision = expectedRev, isFallback = False, source = SrcDefault\<rparr>)
         else (case findExistingChromium w expectedRev of
                 Some fallback \<Rightarrow>
                   ([ScanCandidates], w,
                    Inr \<lparr>status = StatusFallback, executablePath = path fallback,
                         revision = revision_or_null (candidate.revision fallback),
                         expectedRevision = expectedRev, isFallback = True,
                         source = candidate.source fallback\<rparr>)
               | None \<Rightarrow>
                   if \<not> allowInst
                   then ([ScanCandidates], w,
                         Inr \<lparr>status = StatusMissing, executablePath = path_or_empty expectedPath,
                              revision = None, expectedRevision = expectedRev,
                              isFallback = False, source = SrcMissing\<rparr>)
                   else (let installResult = spawnInstall w;
                             w' = snd installResult;
                             installedPath = getDefaultChromiumPath w' (Some chromiumObj)
                         in if fst installResult = Some 0 \<and> path_exists w' installedPath
                            then ([ScanCandidates, RunInstaller], w',
                                  Inr \<lparr>status = StatusInstalled,
                                       executablePath = the installedPath,
                                       revision = extractRevisionFromPath installedPath,
                                       expectedRevision = extractRevisionFromPath installedPath,
                                       isFallback = False, source = SrcInstall\<rparr>)
                            else ([ScanCandidates, RunInstaller], w', Inl INSTALL_FAILED))))"

text \<open>
  The default of the \<open>chromium\<close> option is \<open>loadPlaywright().chromium\<close>, evaluated only
  when the caller passes none; \<open>loadPlaywright\<close> throws when the module is not found.
\<close>

definition chromiumOption :: "'h world \<Rightarrow> 'h options \<Rightarrow> error + 'h" where
  "chromiumOption w opts = (case chromium opts of Some h \<Rightarrow> Inr h | None \<Rightarrow> loadPlaywright w)"

definition resolveChromium ::
    "'h installer \<Rightarrow> 'h world \<Rightarrow> 'h options \<Rightarrow> event list \<times> 'h world \<times> (error + resolution)" where
  "resolveChromium spawnInstall w opts =
     (case chromiumOption w opts of
        Inl e \<Rightarrow> ([], w, Inl e)
      | Inr chromiumObj \<Rightarrow> resolveWith spawnInstall w chromiumObj (allowInstall opts))"


section \<open>The driver \<open>convertHTMLToPDF\<close> (html_to_pdf.js)\<close>

text \<open>
  The control flow of the driver: the checks before the browser is touched, the launch,
  and the \<open>try\<close>/\<open>catch\<close>/\<open>finally\<close> around the conversion. A run yields the list of the
  events that took place, in order, and the way the function was left: it returned, the
  process was ended by \<open>process.exit(code)\<close>, or an exception left the function.
  \<open>process.exit\<close> ends the process at once: no statement after it runs, and neither does
  a \<open>finally\<close> block that encloses it.

  What the browser does is the input \<open>browser_behaviour\<close>: the message of the error thrown
  by \<open>chromium.launch\<close>, by a statement of the \<open>try\<close> block, by \<open>browser.close\<close>, each
  \<open>None\<close> when the call succeeds.
\<close>

datatype outcome = Returned | Exited int | Rejected error

record browser_behaviour =
  launchError :: "string option"
  conversionError :: "string option"
  closeError :: "string option"

definition readFileSync :: "'h world \<Rightarrow> string \<Rightarrow> bool" where
  "readFileSync w p =
     (p \<noteq> [] \<and> (case files w p of None \<Rightarrow> False | Some a \<Rightarrow> readable a))"

definition truthy :: "string option \<Rightarrow> bool" where
  "truthy s = (case s of None \<Rightarrow> False | Some v \<Rightarrow> v \<noteq> [])"

definition runBrowser :: "browser_behaviour \<Rightarrow> event list \<times> outcome" where
  "runBrowser b =
     (case launchError b of
        Some msg \<Rightarrow> ([LaunchBrowser], Exited 1)
      | None \<Rightarrow>
          (case conversionError b of
             Some msg \<Rightarrow> ([LaunchBrowser, RunConversion], Exited 1)
           | None \<Rightarrow>
               (case closeError b of
                  Some msg \<Rightarrow>
                    ([LaunchBrowser, RunConversion, CloseBrowser], Rejected (BROWSER_ERROR msg))
                | None \<Rightarrow> ([LaunchBrowser, RunConversion, CloseBrowser], Returned))))"

definition convertHTMLToPDF ::
    "'h installer \<Rightarrow> 'h world \<Rightarrow> 'h \<Rightarrow> browser_behaviour \<Rightarrow> string \<Rightarrow> string option
       \<Rightarrow> event list \<times> outcome" where
  "convertHTMLToPDF spawnInstall w chromiumObj b inputFile customCSS =
     (if \<not> existsSync w inputFile then ([], Exited 1)
      else
        (let allowInst = (environ w ''PDF_SKIP_BROWSER_INSTALL'' \<noteq> Some ''1'');
             resolved = resolveChromium spawnInstall w
                          \<lparr>chromium = Some chromiumObj, allowInstall = allowInst\<rparr>;
             tr = ResolveBrowser # fst resolved;
             w' = fst (snd resolved)
         in case snd (snd resolved) of
              Inl e \<Rightarrow> (tr, Rejected e)
            | Inr browserInfo \<Rightarrow>
                if status browserInfo = StatusMissing then (tr, Exited 2)
                else if \<not> readFileSync w' inputFile then (tr, Rejected READ_FAILED)
                else if truthy customCSS \<and> \<not> existsSync w' (the customCSS) then (tr, Exited 1)
                else if truthy customCSS \<and> \<not> readFileSync w' (the customCSS)
                  then (tr, Rejected READ_FAILED)
                else (tr @ fst (runBrowser b), snd (runBrowser b))))"


text \<open>
  The entry point (html_to_pdf.js, lines 593--601) awaits \<open>convertHTMLToPDF\<close> on the
  arguments \<open>parseArgs\<close> returned and turns an exception that leaves it into
  \<open>process.exit(1)\<close>.
\<close>

definition entryPoint ::
    "'h installer \<Rightarrow> 'h world \<Rightarrow> 'h \<Rightarrow> browser_behaviour \<Rightarrow> string \<Rightarrow> string option
       \<Rightarrow> event list \<times> outcome" where
  "entryPoint spawnInstall w chromiumObj b inputFile customCSS =
     (let r = convertHTMLToPDF spawnInstall w chromiumObj b inputFile customCSS
      in case snd r of
           Rejected e \<Rightarrow> (fst r, Exited 1)
         | Returned \<Rightarrow> r
         | Exited code \<Rightarrow> r)"

section \<open>Auxiliary notions\<close>

text \<open>
  A comparator is consistent when the relation \<open>cmp a b \<le> 0\<close> is total and transitive;
  \<open>Array.prototype.sort\<close> promises a sorted result for such comparators only.
\<close>

definition consistent :: "('a \<Rightarrow> 'a \<Rightarrow> int) \<Rightarrow> bool" where
  "consistent cmp =
     ((\<forall>a b. cmp a b \<le> 0 \<or> cmp b a \<le> 0)
      \<and> (\<forall>a b c. cmp a b \<le> 0 \<and> cmp b c \<le> 0 \<longrightarrow> cmp a c \<le> 0))"

text \<open>
  The invariant of the scan in \<open>findExistingChromium\<close>: every recorded candidate passed the
  \<open>X_OK\<close> check, candidates from the environment carry no revision, and \<open>seen\<close> holds
  exactly the recorded paths.
\<close>

definition scan_ok :: "'h world \<Rightarrow> scan_state \<Rightarrow> bool" where
  "scan_ok w st =
     ((\<forall>c \<in> set (candidates st). accessSync_X_OK w (path c)
          \<and> (candidate.source c = SrcEnv \<longrightarrow> candidate.revision c = None))
      \<and> set (seen st) = path ` set (candidates st))"

definition scan_final :: "'h world \<Rightarrow> scan_state" where
  "scan_final w =
     fold (\<lambda>cmdPath. addCandidate w cmdPath None SrcSystem) (systemBrowsers w)
       (fold (addCacheDirectory w) (browserCacheDirectories w)
         (fold (addEnvCandidate w)
            [''PLAYWRIGHT_CHROMIUM_PATH'', ''CHROMIUM_PATH'', ''BROWSER_PATH'']
            \<lparr>seen = [], candidates = []\<rparr>))"

subsection \<open>Example environments\<close>

definition exec_file :: file_attr where
  "exec_file = \<lparr>xOK = True, readable = True\<rparr>"

definition plain_file :: file_attr where
  "plain_file = \<lparr>xOK = False, readable = True\<rparr>"

text \<open>Playwright's own browser is installed.\<close>

definition world_ok :: "unit world" where
  "world_ok =
     \<lparr>files = map_of [(''/pw/chromium-1200/chrome-linux/chrome'', exec_file),
                       (''doc.html'', plain_file)],
      environ = Map.empty,
      playwright = Some (),
      chromiumExecutablePath = (\<lambda>_. Some ''/pw/chromium-1200/chrome-linux/chrome''),
      browserCacheDirectories = [''/pw''],
      cacheExecutables =
        (\<lambda>d. if d = ''/pw'' then [(''/pw/chromium-1200/chrome-linux/chrome'', Some 1200)] else []),
      systemBrowsers = []\<rparr>"

text \<open>
  Revision 1200 is expected and absent. The cache holds revisions 1205, 1199 (its file is
  not executable) and 1198; \<open>BROWSER_PATH\<close> and the system offer browsers of unknown
  revision.
\<close>

definition world_fallback :: "unit world" where
  "world_fallback =
     \<lparr>files = map_of [(''/opt/chrome'', exec_file),
                       (''/pw/chromium-1205/chrome-linux/chrome'', exec_file),
                       (''/pw/chromium-1199/chrome-linux/chrome'', plain_file),
                       (''/pw/chromium-1198/chrome-linux/chrome'', exec_file),
                       (''/usr/bin/chromium'', exec_file),
                       (''doc.html'', plain_file)],
      environ = [''BROWSER_PATH'' \<mapsto> ''/opt/chrome''],
      playwright = Some (),
      chromiumExecutablePath = (\<lambda>_. Some ''/pw/chromium-1200/chrome-linux/chrome''),
      browserCacheDirectories = [''/pw''],
      cacheExecutables =
        (\<lambda>d. if d = ''/pw''
             then [(''/pw/chromium-1205/chrome-linux/chrome'', Some 1205),
                   (''/pw/chromium-1199/chrome-linux/chrome'', Some 1199),
                   (''/pw/chromium-1198/chrome-linux/chrome'', Some 1198)]
             else []),
      systemBrowsers = [''/usr/bin/chromium'']\<rparr>"

text \<open>No browser anywhere; installation is not switched off.\<close>

definition world_empty :: "unit world" where
  "world_empty =
     \<lparr>files = map_of [(''doc.html'', plain_file)],
      environ = Map.empty,
      playwright = Some (),
      chromiumExecutablePath = (\<lambda>_. Some ''/pw/chromium-1200/chrome-linux/chrome''),
      browserCacheDirectories = [''/pw''],
      cacheExecutables = (\<lambda>d. []),
      systemBrowsers = []\<rparr>"

text \<open>No browser anywhere, and \<open>PDF_SKIP_BROWSER_INSTALL=1\<close>.\<close>

definition world_skip_install :: "unit world" where
  "world_skip_install = world_empty\<lparr>environ := [''PDF_SKIP_BROWSER_INSTALL'' \<mapsto> ''1'']\<rparr>"

definition install_succeeds :: "unit installer" where
  "install_succeeds w =
     (Some 0, w\<lparr>files := (files w)(''/pw/chromium-1200/chrome-linux/chrome'' \<mapsto> exec_file)\<rparr>)"

definition install_fails :: "unit installer" where
  "install_fails w = (Some 1, w)"

text \<open>
  Revision 1200 is expected and absent; \<open>BROWSER_PATH\<close> names a browser, and the cache
  holds a directory \<open>chromium-9007199254742192\<close>, whose number is \<open>2^53 + 1200\<close>.
\<close>

definition world_far :: "unit world" where
  "world_far =
     \<lparr>files = map_of [(''/opt/chrome'', exec_file),
                       (''/pw/chromium-9007199254742192/chrome-linux/chrome'', exec_file)],
      environ = [''BROWSER_PATH'' \<mapsto> ''/opt/chrome''],
      playwright = Some (),
      chromiumExecutablePath = (\<lambda>_. Some ''/pw/chromium-1200/chrome-linux/chrome''),
      browserCacheDirectories = [''/pw''],
      cacheExecutables =
        (\<lambda>d. if d = ''/pw''
             then [(''/pw/chromium-9007199254742192/chrome-linux/chrome'',
                    extractRevisionFromPath (Some ''chromium-9007199254742192''))]
             else []),
      systemBrowsers = []\<rparr>"

text \<open>Candidates for the ranking: revisions 1198, 1205, 1202 and an unknown one.\<close>

definition cand_1198 :: candidate where
  "cand_1198 = \<lparr>path = ''/pw/chromium-1198/chrome-linux/chrome'', revision = Some 1198, source = SrcCache\<rparr>"

definition cand_1205 :: candidate where
  "cand_1205 = \<lparr>path = ''/pw/chromium-1205/chrome-linux/chrome'', revision = Some 1205, source = SrcCache\<rparr>"

definition cand_1202 :: candidate where
  "cand_1202 = \<lparr>path = ''/pw/chromium-1202/chrome-linux/chrome'', revision = Some 1202, source = SrcCache\<rparr>"

definition cand_unknown :: candidate where
  "cand_unknown = \<lparr>path = ''/opt/chrome'', revision = None, source = SrcEnv\<rparr>"

definition all_fine :: browser_behaviour where
  "all_fine = \<lparr>launchError = None, conversionError = None, closeError = None\<rparr>"

definition executable_not_found :: browser_behaviour where
  "executable_not_found =
     \<lparr>launchError = Some ''browserType.launch: Failed to launch: spawn chrome ENOENT'',
      conversionError = None,
      closeError = None\<rparr>"

definition pagination_times_out :: browser_behaviour where
  "pagination_times_out =
     \<lparr>launchError = None,
      conversionError = Some ''page.waitForFunction: Timeout 120000ms exceeded.'',
      closeError = None\<rparr>"


section \<open>Properties of the pagination polling loop\<close>

text \<open>
  \<open>four_identical\<close> says what it should: four neighbouring entries of the list are equal.
\<close>

lemma four_identical_iff_nth:
  "four_identical xs =
     (\<exists>i. i + 3 < length xs \<and> xs ! i = xs ! (i + 1) \<and> xs ! (i + 1) = xs ! (i + 2)
          \<and> xs ! (i + 2) = xs ! (i + 3))"
proof (induction xs rule: four_identical.induct)
  case (1 a b c d xs)
  show ?case (is "?L = ?R")
  proof
    assume ?L
    then consider "a = b \<and> b = c \<and> c = d" | "four_identical (b # c # d # xs)" by auto
    then show ?R
    proof cases
      case 1
      then show ?thesis by (intro exI [of _ 0]) simp
    next
      case 2
      with "1.IH" obtain i where "i + 3 < length (b # c # d # xs)"
        "(b # c # d # xs) ! i = (b # c # d # xs) ! (i + 1)"
        "(b # c # d # xs) ! (i + 1) = (b # c # d # xs) ! (i + 2)"
        "(b # c # d # xs) ! (i + 2) = (b # c # d # xs) ! (i + 3)" by blast
      then show ?thesis by (intro exI [of _ "Suc i"]) simp
    qed
  next
    assume ?R
    then obtain i where i: "i + 3 < length (a # b # c # d # xs)"
        "(a # b # c # d # xs) ! i = (a # b # c # d # xs) ! (i + 1)"
        "(a # b # c # d # xs) ! (i + 1) = (a # b # c # d # xs) ! (i + 2)"
        "(a # b # c # d # xs) ! (i + 2) = (a # b # c # d # xs) ! (i + 3)" by blast
    show ?L
    proof (cases i)
      case 0
      with i show ?thesis by (simp add: numeral_2_eq_2 numeral_3_eq_3)
    next
      case (Suc j)
      with i have "j + 3 < length (b # c # d # xs) \<and>
        (b # c # d # xs) ! j = (b # c # d # xs) ! (j + 1) \<and>
        (b # c # d # xs) ! (j + 1) = (b # c # d # xs) ! (j + 2) \<and>
        (b # c # d # xs) ! (j + 2) = (b # c # d # xs) ! (j + 3)" by simp
      with "1.IH" have "four_identical (b # c # d # xs)" by blast
      then show ?thesis by simp
    qed
  qed
qed (simp_all add: numeral_3_eq_3)

lemma four_identical_skip:
  assumes "c \<noteq> v" and "s \<le> 2"
  shows "four_identical (replicate (Suc s) v @ c # r) = four_identical (c # r)"
proof -
  from assms(2) consider "s = 0" | "s = 1" | "s = 2" by linarith
  then show ?thesis
  proof cases
    case 1 then show ?thesis using assms(1) by (cases r rule: four_identical.cases) auto
  next
    case 2 then show ?thesis using assms(1) by (cases r rule: four_identical.cases) auto
  next
    case 3 then show ?thesis using assms(1)
      by (cases r rule: four_identical.cases) (auto simp: numeral_2_eq_2)
  qed
qed

lemma four_identical_short:
  "s \<le> 2 \<Longrightarrow> \<not> four_identical (replicate (Suc s) v)"
proof -
  assume "s \<le> 2"
  then consider "s = 0" | "s = 1" | "s = 2" by linarith
  then show ?thesis by cases (simp_all add: numeral_2_eq_2)
qed

lemma pollLoop_stable_gen:
  "s \<le> 3 \<Longrightarrow>
   (fst (pollLoop \<lparr>lastPageCount = v, stableCount = s\<rparr> polls) = Stable)
     = four_identical (replicate (Suc s) v @ map snd (takeWhile (\<lambda>p. fst p \<le> maxWaitTime) polls))"
proof (induction polls arbitrary: v s)
  case Nil
  then consider "s = 0" | "s = 1" | "s = 2" | "s = 3" by linarith
  then show ?case by cases (simp_all add: numeral_2_eq_2 numeral_3_eq_3)
next
  case (Cons p polls)
  obtain t c where p: "p = (t, c)" by (cases p)
  show ?case
  proof (cases "s = 3")
    case True
    then show ?thesis by (simp add: p numeral_3_eq_3)
  next
    case False
    with Cons.prems have s2: "s \<le> 2" by simp
    show ?thesis
    proof (cases "t \<le> maxWaitTime")
      case late: False
      then show ?thesis using s2 four_identical_short [OF s2, of v] by (simp add: p)
    next
      case t: True
      show ?thesis
      proof (cases "c = v")
        case True
        have ih: "(fst (pollLoop \<lparr>lastPageCount = v, stableCount = Suc s\<rparr> polls) = Stable)
              = four_identical (replicate (Suc (Suc s)) v @ map snd (takeWhile (\<lambda>p. fst p \<le> maxWaitTime) polls))"
          using Cons.IH [of "Suc s" v] s2 by simp
        have shape: "replicate (Suc s) v @ map snd (takeWhile (\<lambda>p. fst p \<le> maxWaitTime) (p # polls))
                 = replicate (Suc (Suc s)) v @ map snd (takeWhile (\<lambda>p. fst p \<le> maxWaitTime) polls)"
          using True t by (simp add: p replicate_app_Cons_same)
        have step: "pollLoop \<lparr>lastPageCount = v, stableCount = s\<rparr> (p # polls)
                  = pollLoop \<lparr>lastPageCount = v, stableCount = Suc s\<rparr> polls"
          using s2 t True by (simp add: p)
        show ?thesis by (simp only: step shape ih)
      next
        case False
        have ih: "(fst (pollLoop \<lparr>lastPageCount = c, stableCount = 0\<rparr> polls) = Stable)
              = four_identical (replicate (Suc 0) c @ map snd (takeWhile (\<lambda>p. fst p \<le> maxWaitTime) polls))"
          using Cons.IH [of 0 c] by simp
        have shape: "four_identical (replicate (Suc s) v @ map snd (takeWhile (\<lambda>p. fst p \<le> maxWaitTime) (p # polls)))
               = four_identical (replicate (Suc 0) c @ map snd (takeWhile (\<lambda>p. fst p \<le> maxWaitTime) polls))"
          using four_identical_skip [OF False s2] t by (simp add: p)
        have step: "pollLoop \<lparr>lastPageCount = v, stableCount = s\<rparr> (p # polls)
                  = pollLoop \<lparr>lastPageCount = c, stableCount = 0\<rparr> polls"
          using s2 t False by (simp add: p)
        show ?thesis by (simp only: step shape ih)
      qed
    qed
  qed
qed

lemma pollLoop_stableCount_le:
  "stableCount st \<le> 3 \<Longrightarrow> stableCount (fst (snd (pollLoop st polls))) \<le> 3"
proof (induction polls arbitrary: st)
  case Nil
  then show ?case by simp
next
  case (Cons p polls)
  obtain t c where p: "p = (t, c)" by (cases p)
  show ?case using Cons.prems
    by (auto simp: p intro!: Cons.IH)
qed

lemma pollLoop_exit_stable:
  "fst (pollLoop st polls) = Stable \<Longrightarrow> \<not> stableCount (fst (snd (pollLoop st polls))) < 3"
proof (induction polls arbitrary: st)
  case Nil
  then show ?case by (simp split: if_splits)
next
  case (Cons p polls)
  obtain t c where p: "p = (t, c)" by (cases p)
  show ?case using Cons.prems Cons.IH
    by (auto simp: p split: if_splits)
qed

text \<open>
  Claim C1, as the code has it. Started from \<open>lastPageCount = 0\<close> and \<open>stableCount = 0\<close>,
  the loop leaves through its condition (pagination declared stable, \<open>stableCount = 3\<close>)
  exactly when, among the polls taken before the first one that finds the clock past
  \<open>maxWaitTime\<close>, three in a row each sampled the count recorded before it: the sequence
  of the initial 0 followed by the samples has four equal neighbours. Three equal samples
  are not enough unless a fourth poll confirms them.
\<close>

theorem pollLoop_stable_iff_four_identical:
  "(poll_exit_of (pollLoop poll_init polls) = Stable)
     = four_identical (0 # map snd (takeWhile (\<lambda>p. fst p \<le> maxWaitTime) polls))
   \<and> (poll_exit_of (pollLoop poll_init polls) = Stable
        \<longrightarrow> stableCount (poll_state_of (pollLoop poll_init polls)) = 3)"
proof -
  have a: "(fst (pollLoop \<lparr>lastPageCount = 0, stableCount = 0\<rparr> polls) = Stable)
     = four_identical (replicate (Suc 0) 0 @ map snd (takeWhile (\<lambda>p. fst p \<le> maxWaitTime) polls))"
    by (rule pollLoop_stable_gen) simp
  have b: "stableCount (fst (snd (pollLoop poll_init polls))) \<le> 3"
    by (rule pollLoop_stableCount_le) (simp add: poll_init_def)
  have c: "fst (pollLoop poll_init polls) = Stable \<Longrightarrow> \<not> stableCount (fst (snd (pollLoop poll_init polls))) < 3"
    by (rule pollLoop_exit_stable)
  show ?thesis using a b c by (auto simp: poll_exit_of_def poll_state_of_def poll_init_def)
qed

text \<open>On the samples 3, 5, 5, 5, 5 stability is declared at the fifth poll, with 5 pages.\<close>

theorem pollLoop_stable_iff_four_identical_witness:
  "poll_exit_of (pollLoop poll_init [(1000, 3), (2000, 5), (3000, 5), (4000, 5), (5000, 5)]) = Stable
   \<and> four_identical [0, 3, 5, 5, 5, 5]
   \<and> pollLoop poll_init [(1000, 3), (2000, 5), (3000, 5), (4000, 5), (5000, 5)]
       = (Stable, \<lparr>lastPageCount = 5, stableCount = 3\<rparr>, 0)"
  using pollLoop_stable_iff_four_identical [of "[(1000, 3), (2000, 5), (3000, 5), (4000, 5), (5000, 5)]"]
  by (simp add: poll_init_def maxWaitTime_def poll_exit_of_def poll_state_of_def)

text \<open>
  Claim C1 as the spec states it fails on the samples 3, 5, 5, 5: the count has held at 5
  for three checks, three neighbouring samples are identical, and the loop has counted two
  unchanged checks only; it has not declared stability and goes on polling.
\<close>

theorem pollLoop_3555_counterexample:
  "spec_three_identical [3, 5, 5, 5]
   \<and> pollLoop poll_init [(1000, 3), (2000, 5), (3000, 5), (4000, 5)]
       = (Pending, \<lparr>lastPageCount = 5, stableCount = 2\<rparr>, 0)
   \<and> poll_exit_of (pollLoop poll_init [(1000, 3), (2000, 5), (3000, 5), (4000, 5)]) \<noteq> Stable"
  by (simp add: poll_init_def maxWaitTime_def poll_exit_of_def)


section \<open>Properties of the browser resolver\<close>

subsection \<open>The sort and the comparator\<close>

lemma set_insert_by: "set (insert_by cmp x xs) = insert x (set xs)"
  by (induction xs) auto

lemma set_sort_by: "set (sort_by cmp xs) = set xs"
  by (induction xs) (simp_all add: sort_by_def set_insert_by)

lemma length_insert_by: "length (insert_by cmp x xs) = Suc (length xs)"
  by (induction xs) auto

lemma length_sort_by: "length (sort_by cmp xs) = length xs"
  by (induction xs) (simp_all add: sort_by_def length_insert_by)

lemma sorted_insert_by:
  assumes "consistent cmp" and "sorted_wrt (\<lambda>a b. cmp a b \<le> 0) xs"
  shows "sorted_wrt (\<lambda>a b. cmp a b \<le> 0) (insert_by cmp x xs)"
  using assms(2)
proof (induction xs)
  case Nil
  then show ?case by simp
next
  case (Cons y ys)
  show ?case
  proof (cases "cmp x y \<le> 0")
    case True
    have "\<forall>z \<in> set ys. cmp x z \<le> 0"
    proof
      fix z assume "z \<in> set ys"
      with Cons.prems have "cmp y z \<le> 0" by simp
      with True assms(1) show "cmp x z \<le> 0" unfolding consistent_def by blast
    qed
    with True Cons.prems show ?thesis by simp
  next
    case False
    with assms(1) have "cmp y x \<le> 0" unfolding consistent_def by blast
    with False Cons show ?thesis by (auto simp: set_insert_by)
  qed
qed

lemma sorted_sort_by:
  "consistent cmp \<Longrightarrow> sorted_wrt (\<lambda>a b. cmp a b \<le> 0) (sort_by cmp xs)"
proof (induction xs)
  case Nil
  then show ?case by (simp add: sort_by_def)
next
  case (Cons x xs)
  then have "sorted_wrt (\<lambda>a b. cmp a b \<le> 0) (insert_by cmp x (sort_by cmp xs))"
    by (intro sorted_insert_by) simp_all
  then show ?case by (simp add: sort_by_def)
qed

lemma compareCandidates_le_iff:
  "(compareCandidates e a b \<le> 0) =
     (score e a < score e b \<or> (score e a = score e b \<and> revision_or_zero b \<le> revision_or_zero a))"
  by (auto simp: compareCandidates_def Let_def)

lemma consistent_compareCandidates: "consistent (compareCandidates e)"
  unfolding consistent_def compareCandidates_le_iff by auto

lemma consistent_refl: "consistent cmp \<Longrightarrow> cmp a a \<le> 0"
  unfolding consistent_def by blast

lemma selectCandidate_Some:
  assumes "cs \<noteq> []"
  shows "\<exists>c. selectCandidate e cs = Some c \<and> c \<in> set cs
           \<and> (\<forall>x \<in> set cs. compareCandidates e c x \<le> 0)"
proof -
  let ?r = "rankCandidates e cs"
  have len: "length ?r = length cs" by (simp add: rankCandidates_def length_sort_by)
  with assms obtain c r where r: "?r = c # r" by (cases ?r) auto
  have st: "set ?r = set cs" by (simp add: rankCandidates_def set_sort_by)
  have sorted: "sorted_wrt (\<lambda>a b. compareCandidates e a b \<le> 0) ?r"
    unfolding rankCandidates_def by (rule sorted_sort_by) (rule consistent_compareCandidates)
  have "\<forall>x \<in> set cs. compareCandidates e c x \<le> 0"
  proof
    fix x assume "x \<in> set cs"
    with st r have "x = c \<or> x \<in> set r" by auto
    then show "compareCandidates e c x \<le> 0"
    proof
      assume "x = c"
      then show ?thesis using consistent_refl [OF consistent_compareCandidates] by simp
    next
      assume "x \<in> set r"
      with sorted r show ?thesis by simp
    qed
  qed
  moreover have "c \<in> set cs" using st r by auto
  moreover have "selectCandidate e cs = Some c" using assms r by (simp add: selectCandidate_def)
  ultimately show ?thesis by blast
qed

lemma selectCandidate_None: "selectCandidate e [] = None"
  by (simp add: selectCandidate_def)

subsection \<open>The scan for candidates\<close>

lemma fold_preserves:
  assumes "\<And>x st. P st \<Longrightarrow> P (f x st)" and "P st"
  shows "P (fold f xs st)"
  using assms(2) by (induction xs arbitrary: st) (simp_all add: assms(1))

lemma scan_ok_addCandidate:
  "scan_ok w st \<Longrightarrow> src = SrcEnv \<longrightarrow> r = None \<Longrightarrow> scan_ok w (addCandidate w p r src st)"
  by (auto simp: scan_ok_def addCandidate_def)

lemma scan_ok_addEnvCandidate: "scan_ok w st \<Longrightarrow> scan_ok w (addEnvCandidate w n st)"
  by (simp add: addEnvCandidate_def scan_ok_addCandidate split: option.splits)

lemma scan_ok_addCacheDirectory: "scan_ok w st \<Longrightarrow> scan_ok w (addCacheDirectory w d st)"
  unfolding addCacheDirectory_def
  by (rule fold_preserves [where P = "scan_ok w"]) (simp_all add: scan_ok_addCandidate)

lemma collectCandidates_scan_final: "collectCandidates w = candidates (scan_final w)"
  by (simp add: collectCandidates_def scan_final_def Let_def)

lemma scan_ok_final: "scan_ok w (scan_final w)"
proof -
  have "scan_ok w \<lparr>seen = [], candidates = []\<rparr>" by (simp add: scan_ok_def)
  then have "scan_ok w (fold (addEnvCandidate w)
            [''PLAYWRIGHT_CHROMIUM_PATH'', ''CHROMIUM_PATH'', ''BROWSER_PATH'']
            \<lparr>seen = [], candidates = []\<rparr>)"
    by (rule fold_preserves [where P = "scan_ok w", rotated]) (rule scan_ok_addEnvCandidate)
  then have "scan_ok w (fold (addCacheDirectory w) (browserCacheDirectories w)
         (fold (addEnvCandidate w)
            [''PLAYWRIGHT_CHROMIUM_PATH'', ''CHROMIUM_PATH'', ''BROWSER_PATH'']
            \<lparr>seen = [], candidates = []\<rparr>))"
    by (rule fold_preserves [where P = "scan_ok w", rotated]) (rule scan_ok_addCacheDirectory)
  then show ?thesis unfolding scan_final_def
    by (rule fold_preserves [where P = "scan_ok w", rotated]) (simp add: scan_ok_addCandidate)
qed

text \<open>The scan only adds candidates.\<close>

lemma addCandidate_mono: "set (candidates st) \<subseteq> set (candidates (addCandidate w p r src st))"
  by (auto simp: addCandidate_def)

lemma fold_mono:
  assumes "\<And>x st. set (candidates st) \<subseteq> set (candidates (f x st))"
  shows "set (candidates st) \<subseteq> set (candidates (fold f xs st))"
proof (induction xs arbitrary: st)
  case Nil
  then show ?case by simp
next
  case (Cons x xs)
  have "set (candidates st) \<subseteq> set (candidates (f x st))" by (rule assms)
  also have "\<dots> \<subseteq> set (candidates (fold f xs (f x st)))" by (rule Cons.IH)
  finally show ?case by simp
qed

lemma addCacheDirectory_mono:
  "set (candidates st) \<subseteq> set (candidates (addCacheDirectory w d st))"
  unfolding addCacheDirectory_def by (rule fold_mono) (rule addCandidate_mono)

lemma addCandidate_present:
  "scan_ok w st \<Longrightarrow> accessSync_X_OK w p \<Longrightarrow>
     p \<in> path ` set (candidates (addCandidate w p r src st))"
  by (auto simp: scan_ok_def addCandidate_def accessSync_X_OK_def)

lemma fold_addCandidate_present:
  assumes "scan_ok w st" and "e \<in> set es" and "accessSync_X_OK w (fst e)"
  shows "fst e \<in> path ` set (candidates (fold (\<lambda>entry. addCandidate w (fst entry) (snd entry) SrcCache) es st))"
  using assms
proof (induction es arbitrary: st)
  case Nil
  then show ?case by simp
next
  case (Cons x es)
  let ?f = "\<lambda>entry. addCandidate w (fst entry) (snd entry) SrcCache"
  have ok: "scan_ok w (?f x st)" using Cons.prems(1) by (simp add: scan_ok_addCandidate)
  show ?case
  proof (cases "e = x")
    case True
    have "fst e \<in> path ` set (candidates (?f x st))"
      using addCandidate_present [OF Cons.prems(1) Cons.prems(3)] True by simp
    moreover have "set (candidates (?f x st)) \<subseteq> set (candidates (fold ?f es (?f x st)))"
      by (rule fold_mono) (rule addCandidate_mono)
    ultimately show ?thesis by auto
  next
    case False
    with Cons.prems have "e \<in> set es" by simp
    from Cons.IH [OF ok this Cons.prems(3)] show ?thesis by simp
  qed
qed

lemma fold_addCacheDirectory_present:
  assumes "scan_ok w st" and "d \<in> set ds" and "e \<in> set (cacheExecutables w d)"
    and "accessSync_X_OK w (fst e)"
  shows "fst e \<in> path ` set (candidates (fold (addCacheDirectory w) ds st))"
  using assms
proof (induction ds arbitrary: st)
  case Nil
  then show ?case by simp
next
  case (Cons x ds)
  have ok: "scan_ok w (addCacheDirectory w x st)"
    using Cons.prems(1) by (rule scan_ok_addCacheDirectory)
  show ?case
  proof (cases "d = x")
    case True
    have "fst e \<in> path ` set (candidates (addCacheDirectory w x st))"
      unfolding addCacheDirectory_def
      using fold_addCandidate_present [OF Cons.prems(1) _ Cons.prems(4)] Cons.prems(3) True by simp
    moreover have "set (candidates (addCacheDirectory w x st))
                     \<subseteq> set (candidates (fold (addCacheDirectory w) ds (addCacheDirectory w x st)))"
      by (rule fold_mono) (rule addCacheDirectory_mono)
    ultimately show ?thesis by auto
  next
    case False
    with Cons.prems have "d \<in> set ds" by simp
    from Cons.IH [OF ok this Cons.prems(3) Cons.prems(4)] show ?thesis by simp
  qed
qed

lemma cache_entry_collected:
  assumes "d \<in> set (browserCacheDirectories w)" and "e \<in> set (cacheExecutables w d)"
    and "accessSync_X_OK w (fst e)"
  shows "fst e \<in> path ` set (collectCandidates w)"
proof -
  let ?st1 = "fold (addEnvCandidate w)
            [''PLAYWRIGHT_CHROMIUM_PATH'', ''CHROMIUM_PATH'', ''BROWSER_PATH'']
            \<lparr>seen = [], candidates = []\<rparr>"
  let ?st2 = "fold (addCacheDirectory w) (browserCacheDirectories w) ?st1"
  have "scan_ok w \<lparr>seen = [], candidates = []\<rparr>" by (simp add: scan_ok_def)
  then have "scan_ok w ?st1"
    by (rule fold_preserves [where P = "scan_ok w", rotated]) (rule scan_ok_addEnvCandidate)
  then have "fst e \<in> path ` set (candidates ?st2)"
    using assms by (rule fold_addCacheDirectory_present)
  moreover have "set (candidates ?st2) \<subseteq> set (candidates (scan_final w))"
    unfolding scan_final_def by (rule fold_mono) (rule addCandidate_mono)
  ultimately show ?thesis unfolding collectCandidates_scan_final by blast
qed

subsection \<open>Scores and the selected candidate\<close>

lemma score_known: "candidate.revision c = Some r \<Longrightarrow> score (Some R) c = \<bar>r - R\<bar>"
  by (simp add: score_def)

lemma score_unknown: "candidate.revision c = None \<Longrightarrow> score e c = MAX_SAFE_INTEGER"
  by (simp add: score_def)

lemma selected_score_le:
  assumes "a \<in> set cs"
  shows "\<exists>pick. selectCandidate e cs = Some pick \<and> pick \<in> set cs \<and> score e pick \<le> score e a
           \<and> (score e pick = score e a \<longrightarrow> revision_or_zero a \<le> revision_or_zero pick)"
proof -
  from assms have "cs \<noteq> []" by auto
  from selectCandidate_Some [OF this, of e] obtain pick where
    p: "selectCandidate e cs = Some pick" "pick \<in> set cs"
       "\<forall>x \<in> set cs. compareCandidates e pick x \<le> 0" by blast
  from p(3) assms have "compareCandidates e pick a \<le> 0" by blast
  then have "score e pick \<le> score e a
           \<and> (score e pick = score e a \<longrightarrow> revision_or_zero a \<le> revision_or_zero pick)"
    by (auto simp: compareCandidates_le_iff)
  with p show ?thesis by blast
qed

subsection \<open>The example environments, evaluated\<close>

lemma extract_1200:
  "extractRevisionFromPath (Some ''/pw/chromium-1200/chrome-linux/chrome'') = Some 1200"
  by code_simp

lemma extract_far: "extractRevisionFromPath (Some ''chromium-9007199254742192'') = Some 9007199254742192"
  by code_simp

lemma scan_candidates_fallback:
  "collectCandidates world_fallback =
     [\<lparr>path = ''/opt/chrome'', revision = None, source = SrcEnv\<rparr>,
      \<lparr>path = ''/pw/chromium-1205/chrome-linux/chrome'', revision = Some 1205, source = SrcCache\<rparr>,
      \<lparr>path = ''/pw/chromium-1198/chrome-linux/chrome'', revision = Some 1198, source = SrcCache\<rparr>,
      \<lparr>path = ''/usr/bin/chromium'', revision = None, source = SrcSystem\<rparr>]"
  by (simp add: collectCandidates_def world_fallback_def addEnvCandidate_def addCacheDirectory_def
      addCandidate_def accessSync_X_OK_def exec_file_def plain_file_def)

lemma select_fallback:
  "findExistingChromium world_fallback (Some 1200) =
     Some \<lparr>path = ''/pw/chromium-1198/chrome-linux/chrome'', revision = Some 1198, source = SrcCache\<rparr>"
  by (simp add: findExistingChromium_def scan_candidates_fallback selectCandidate_def
      rankCandidates_def sort_by_def compareCandidates_def score_def revision_or_zero_def
      MAX_SAFE_INTEGER_def)

lemma expected_fallback:
  "getDefaultChromiumPath world_fallback (Some ()) = Some ''/pw/chromium-1200/chrome-linux/chrome''"
  by (simp add: getDefaultChromiumPath_def world_fallback_def)

lemma expected_empty:
  "getDefaultChromiumPath world_empty (Some ()) = Some ''/pw/chromium-1200/chrome-linux/chrome''"
  by (simp add: getDefaultChromiumPath_def world_empty_def)

lemma scan_candidates_empty: "collectCandidates world_empty = []"
  by (simp add: collectCandidates_def world_empty_def addEnvCandidate_def addCacheDirectory_def)

lemma scan_candidates_skip: "collectCandidates world_skip_install = []"
  by (simp add: collectCandidates_def world_skip_install_def world_empty_def addEnvCandidate_def addCacheDirectory_def)

lemma scan_candidates_far:
  "collectCandidates world_far =
     [\<lparr>path = ''/opt/chrome'', revision = None, source = SrcEnv\<rparr>,
      \<lparr>path = ''/pw/chromium-9007199254742192/chrome-linux/chrome'',
       revision = Some 9007199254742192, source = SrcCache\<rparr>]"
  by (simp add: collectCandidates_def world_far_def addEnvCandidate_def addCacheDirectory_def
      addCandidate_def accessSync_X_OK_def exec_file_def extract_far)

lemma resolve_skip_install:
  "resolveChromium install_fails world_skip_install \<lparr>chromium = Some (), allowInstall = False\<rparr> =
       ([ScanCandidates], world_skip_install,
        Inr \<lparr>status = StatusMissing, executablePath = ''/pw/chromium-1200/chrome-linux/chrome'',
             revision = None, expectedRevision = extractRevisionFromPath (Some ''/pw/chromium-1200/chrome-linux/chrome''),
             isFallback = False, source = SrcMissing\<rparr>)"
proof -
  have p: "getDefaultChromiumPath world_skip_install (Some ()) = Some ''/pw/chromium-1200/chrome-linux/chrome''"
    by (simp add: getDefaultChromiumPath_def world_skip_install_def world_empty_def)
  have n: "\<not> path_exists world_skip_install (Some ''/pw/chromium-1200/chrome-linux/chrome'')"
    by (simp add: path_exists_def existsSync_def world_skip_install_def world_empty_def)
  show ?thesis
    by (simp add: resolveChromium_def chromiumOption_def resolveWith_def p n
        findExistingChromium_def scan_candidates_skip selectCandidate_def path_or_empty_def Let_def)
qed

lemma resolve_world_ok:
  "resolveChromium install_fails world_ok \<lparr>chromium = Some (), allowInstall = True\<rparr> =
           ([], world_ok, Inr \<lparr>status = StatusOk, executablePath = ''/pw/chromium-1200/chrome-linux/chrome'',
                        revision = extractRevisionFromPath (Some ''/pw/chromium-1200/chrome-linux/chrome''),
                        expectedRevision = extractRevisionFromPath (Some ''/pw/chromium-1200/chrome-linux/chrome''),
                        isFallback = False, source = SrcDefault\<rparr>)"
  by (simp add: resolveChromium_def chromiumOption_def resolveWith_def getDefaultChromiumPath_def
      path_exists_def existsSync_def world_ok_def Let_def)

subsection \<open>Claims about the resolver\<close>

text \<open>
  Claim C2. When the expected path (the path Playwright reports for its own Chromium)
  exists and is executable, \<open>resolveChromium\<close> returns status \<open>ok\<close> with exactly that
  path. No event is recorded: the candidates are not scanned and the installer is not run.
  The \<open>chromium\<close> object is the one the caller passed or, failing that, the one
  \<open>loadPlaywright\<close> returned.
\<close>

theorem resolveChromium_ok:
  assumes "chromiumOption w opts = Inr h"
    and "getDefaultChromiumPath w (Some h) = Some p"
    and "existsSync w p" and "accessSync_X_OK w p"
  shows "resolveChromium spawnInstall w opts =
           ([], w, Inr \<lparr>status = StatusOk, executablePath = p,
                        revision = extractRevisionFromPath (Some p),
                        expectedRevision = extractRevisionFromPath (Some p),
                        isFallback = False, source = SrcDefault\<rparr>)"
  using assms
  by (simp add: resolveChromium_def resolveWith_def path_exists_def existsSync_def Let_def)

theorem resolveChromium_ok_witness:
  "chromiumOption world_ok \<lparr>chromium = None, allowInstall = False\<rparr> = Inr ()
   \<and> existsSync world_ok ''/pw/chromium-1200/chrome-linux/chrome''
   \<and> accessSync_X_OK world_ok ''/pw/chromium-1200/chrome-linux/chrome''
   \<and> resolveChromium install_fails world_ok \<lparr>chromium = None, allowInstall = False\<rparr> =
           ([], world_ok, Inr \<lparr>status = StatusOk, executablePath = ''/pw/chromium-1200/chrome-linux/chrome'',
                        revision = Some 1200,
                        expectedRevision = Some 1200,
                        isFallback = False, source = SrcDefault\<rparr>)"
proof -
  have a: "chromiumOption world_ok \<lparr>chromium = None, allowInstall = False\<rparr> = Inr ()"
    by (simp add: chromiumOption_def loadPlaywright_def world_ok_def)
  have b: "getDefaultChromiumPath world_ok (Some ()) = Some ''/pw/chromium-1200/chrome-linux/chrome''"
    by (simp add: getDefaultChromiumPath_def world_ok_def)
  have c: "existsSync world_ok ''/pw/chromium-1200/chrome-linux/chrome''"
    by (simp add: existsSync_def world_ok_def)
  have d: "accessSync_X_OK world_ok ''/pw/chromium-1200/chrome-linux/chrome''"
    by (simp add: accessSync_X_OK_def world_ok_def exec_file_def)
  have e: "extractRevisionFromPath (Some ''/pw/chromium-1200/chrome-linux/chrome'') = Some 1200"
    by code_simp
  show ?thesis
    using resolveChromium_ok [OF a b c d, of install_fails] a c d by (simp add: e)
qed

text \<open>
  Claim C3. With expected revision \<open>R\<close>: whenever a candidate of revision \<open>R - 2\<close> is in
  the list, the selected candidate scores at most 2, so it is neither a candidate of
  revision \<open>R + 5\<close> nor one of unknown revision; whenever a candidate of revision
  \<open>R + 5\<close> is in the list, the selected candidate is not one of unknown revision; and the
  three scores are ordered \<open>R - 2\<close> before \<open>R + 5\<close> before unknown.
\<close>

theorem nearer_revision_selected:
  "(a \<in> set cs \<and> candidate.revision a = Some (R - 2) \<longrightarrow>
      (\<exists>pick. selectCandidate (Some R) cs = Some pick \<and> pick \<in> set cs
            \<and> score (Some R) pick \<le> 2
            \<and> candidate.revision pick \<noteq> Some (R + 5) \<and> candidate.revision pick \<noteq> None))
   \<and> (b \<in> set cs \<and> candidate.revision b = Some (R + 5) \<longrightarrow>
      (\<exists>pick. selectCandidate (Some R) cs = Some pick \<and> pick \<in> set cs
            \<and> score (Some R) pick \<le> 5 \<and> candidate.revision pick \<noteq> None))
   \<and> (candidate.revision a = Some (R - 2) \<and> candidate.revision b = Some (R + 5)
        \<and> candidate.revision u = None \<longrightarrow>
      score (Some R) a < score (Some R) b \<and> score (Some R) b < score (Some R) u)"
proof (intro conjI impI)
  assume h: "a \<in> set cs \<and> candidate.revision a = Some (R - 2)"
  then have sa: "score (Some R) a = 2" by (simp add: score_known)
  from selected_score_le [of a cs "Some R"] h obtain pick where
    p: "selectCandidate (Some R) cs = Some pick" "pick \<in> set cs" "score (Some R) pick \<le> 2"
    using sa by auto
  have "candidate.revision pick \<noteq> Some (R + 5)"
    using p(3) score_known [of pick "R + 5" R] by auto
  moreover have "candidate.revision pick \<noteq> None"
    using p(3) score_unknown [of pick "Some R"] by (auto simp: MAX_SAFE_INTEGER_def)
  ultimately show "\<exists>pick. selectCandidate (Some R) cs = Some pick \<and> pick \<in> set cs
            \<and> score (Some R) pick \<le> 2
            \<and> candidate.revision pick \<noteq> Some (R + 5) \<and> candidate.revision pick \<noteq> None"
    using p by blast
next
  assume h: "b \<in> set cs \<and> candidate.revision b = Some (R + 5)"
  then have sb: "score (Some R) b = 5" by (simp add: score_known)
  from selected_score_le [of b cs "Some R"] h obtain pick where
    p: "selectCandidate (Some R) cs = Some pick" "pick \<in> set cs" "score (Some R) pick \<le> 5"
    using sb by auto
  have "candidate.revision pick \<noteq> None"
    using p(3) score_unknown [of pick "Some R"] by (auto simp: MAX_SAFE_INTEGER_def)
  then show "\<exists>pick. selectCandidate (Some R) cs = Some pick \<and> pick \<in> set cs
            \<and> score (Some R) pick \<le> 5 \<and> candidate.revision pick \<noteq> None"
    using p by blast
next
  assume "candidate.revision a = Some (R - 2) \<and> candidate.revision b = Some (R + 5)
        \<and> candidate.revision u = None"
  then show "score (Some R) a < score (Some R) b" "score (Some R) b < score (Some R) u"
    by (simp_all add: score_def MAX_SAFE_INTEGER_def)
qed

theorem nearer_revision_selected_witness:
  "cand_1198 \<in> set [cand_unknown, cand_1205, cand_1198]
   \<and> candidate.revision cand_1198 = Some (1200 - 2)
   \<and> candidate.revision cand_1205 = Some (1200 + 5)
   \<and> candidate.revision cand_unknown = None
   \<and> selectCandidate (Some 1200) [cand_unknown, cand_1205, cand_1198] = Some cand_1198
   \<and> selectCandidate (Some 1200) [cand_unknown, cand_1205] = Some cand_1205
   \<and> score (Some 1200) cand_1198 < score (Some 1200) cand_1205
   \<and> score (Some 1200) cand_1205 < score (Some 1200) cand_unknown"
proof -
  have a: "cand_1198 \<in> set [cand_unknown, cand_1205, cand_1198] \<and> candidate.revision cand_1198 = Some (1200 - 2)"
    by (simp add: cand_1198_def)
  have b: "cand_1205 \<in> set [cand_unknown, cand_1205] \<and> candidate.revision cand_1205 = Some (1200 + 5)"
    by (simp add: cand_1205_def)
  have u: "candidate.revision cand_unknown = None" by (simp add: cand_unknown_def)
  have ne: "cand_1198 \<noteq> cand_1205" "cand_1198 \<noteq> cand_unknown" "cand_1205 \<noteq> cand_unknown"
    by (simp_all add: cand_1198_def cand_1205_def cand_unknown_def)
  from nearer_revision_selected [of cand_1198 "[cand_unknown, cand_1205, cand_1198]" 1200 cand_1205 cand_unknown] a b u
  obtain pick where p: "selectCandidate (Some 1200) [cand_unknown, cand_1205, cand_1198] = Some pick"
    "pick \<in> set [cand_unknown, cand_1205, cand_1198]"
    "candidate.revision pick \<noteq> Some (1200 + 5)" "candidate.revision pick \<noteq> None"
    and sc: "score (Some 1200) cand_1198 < score (Some 1200) cand_1205"
      "score (Some 1200) cand_1205 < score (Some 1200) cand_unknown"
    by auto
  from p(2-4) a b u have "pick = cand_1198" by auto
  with p(1) have s1: "selectCandidate (Some 1200) [cand_unknown, cand_1205, cand_1198] = Some cand_1198"
    by simp
  from nearer_revision_selected [of cand_1198 "[cand_unknown, cand_1205]" 1200 cand_1205 cand_unknown] b
  obtain pick' where p': "selectCandidate (Some 1200) [cand_unknown, cand_1205] = Some pick'"
    "pick' \<in> set [cand_unknown, cand_1205]" "candidate.revision pick' \<noteq> None"
    by auto
  from p'(2,3) u have "pick' = cand_1205" by auto
  with p'(1) have s2: "selectCandidate (Some 1200) [cand_unknown, cand_1205] = Some cand_1205" by simp
  show ?thesis using a b u s1 s2 sc by simp
qed

text \<open>
  Claim C4. When the expected path does not exist and some entry of a scanned cache
  directory exists and is executable, \<open>resolveChromium\<close> returns (it does not throw) with
  status \<open>fallback\<close> and the path of the candidate \<open>findExistingChromium\<close> selected.
\<close>

theorem resolveChromium_fallback:
  assumes "chromiumOption w opts = Inr h"
    and "\<not> path_exists w (getDefaultChromiumPath w (Some h))"
    and "d \<in> set (browserCacheDirectories w)"
    and "entry \<in> set (cacheExecutables w d)"
    and "existsSync w (fst entry)" and "accessSync_X_OK w (fst entry)"
  shows "\<exists>c. findExistingChromium w (extractRevisionFromPath (getDefaultChromiumPath w (Some h))) = Some c
           \<and> c \<in> set (collectCandidates w)
           \<and> resolveChromium spawnInstall w opts =
               ([ScanCandidates], w,
                Inr \<lparr>status = StatusFallback, executablePath = path c,
                     revision = revision_or_null (candidate.revision c),
                     expectedRevision = extractRevisionFromPath (getDefaultChromiumPath w (Some h)),
                     isFallback = True, source = candidate.source c\<rparr>)"
proof -
  let ?e = "extractRevisionFromPath (getDefaultChromiumPath w (Some h))"
  have "fst entry \<in> path ` set (collectCandidates w)"
    using assms(3,4,6) by (rule cache_entry_collected)
  then have "collectCandidates w \<noteq> []" by auto
  from selectCandidate_Some [OF this, of ?e]
  obtain c where c: "findExistingChromium w ?e = Some c" "c \<in> set (collectCandidates w)"
    by (auto simp: findExistingChromium_def)
  have "resolveChromium spawnInstall w opts =
               ([ScanCandidates], w,
                Inr \<lparr>status = StatusFallback, executablePath = path c,
                     revision = revision_or_null (candidate.revision c),
                     expectedRevision = ?e,
                     isFallback = True, source = candidate.source c\<rparr>)"
    using assms(1,2) c(1) by (simp add: resolveChromium_def resolveWith_def Let_def)
  with c show ?thesis by blast
qed

theorem resolveChromium_fallback_witness:
  "chromiumOption world_fallback \<lparr>chromium = None, allowInstall = True\<rparr> = Inr ()
   \<and> \<not> path_exists world_fallback (getDefaultChromiumPath world_fallback (Some ()))
   \<and> accessSync_X_OK world_fallback ''/pw/chromium-1205/chrome-linux/chrome''
   \<and> resolveChromium install_fails world_fallback \<lparr>chromium = None, allowInstall = True\<rparr> =
        ([ScanCandidates], world_fallback,
         Inr \<lparr>status = StatusFallback, executablePath = ''/pw/chromium-1198/chrome-linux/chrome'',
              revision = Some 1198, expectedRevision = Some 1200,
              isFallback = True, source = SrcCache\<rparr>)"
proof -
  have a: "chromiumOption world_fallback \<lparr>chromium = None, allowInstall = True\<rparr> = Inr ()"
    by (simp add: chromiumOption_def loadPlaywright_def world_fallback_def)
  have b: "\<not> path_exists world_fallback (getDefaultChromiumPath world_fallback (Some ()))"
    by (simp add: expected_fallback path_exists_def existsSync_def) (simp add: world_fallback_def)
  have c: "''/pw'' \<in> set (browserCacheDirectories world_fallback)"
    by (simp add: world_fallback_def)
  have d: "(''/pw/chromium-1205/chrome-linux/chrome'', Some 1205) \<in> set (cacheExecutables world_fallback ''/pw'')"
    by (simp add: world_fallback_def)
  have e: "existsSync world_fallback (fst (''/pw/chromium-1205/chrome-linux/chrome'', Some (1205::int)))"
    by (simp add: existsSync_def world_fallback_def)
  have f: "accessSync_X_OK world_fallback (fst (''/pw/chromium-1205/chrome-linux/chrome'', Some (1205::int)))"
    by (simp add: accessSync_X_OK_def world_fallback_def exec_file_def)
  from resolveChromium_fallback [OF a b c d e f, of install_fails]
  have "resolveChromium install_fails world_fallback \<lparr>chromium = None, allowInstall = True\<rparr> =
        ([ScanCandidates], world_fallback,
         Inr \<lparr>status = StatusFallback, executablePath = ''/pw/chromium-1198/chrome-linux/chrome'',
              revision = Some 1198, expectedRevision = Some 1200,
              isFallback = True, source = SrcCache\<rparr>)"
    by (auto simp: expected_fallback extract_1200 select_fallback revision_or_null_def)
  with a b f show ?thesis by simp
qed

text \<open>
  Claim C5. Every path in the candidate list exists and passed the \<open>X_OK\<close> check when it
  was added, whatever its source; a path that does not exist or is not executable is never
  a candidate, and so is never the result of \<open>findExistingChromium\<close>.
\<close>

theorem candidates_exist_and_executable:
  "(\<forall>c \<in> set (collectCandidates w). existsSync w (path c) \<and> accessSync_X_OK w (path c))
   \<and> (\<forall>p. \<not> existsSync w p \<or> \<not> accessSync_X_OK w p \<longrightarrow> p \<notin> path ` set (collectCandidates w))
   \<and> (\<forall>c. findExistingChromium w e = Some c \<longrightarrow> existsSync w (path c) \<and> accessSync_X_OK w (path c))"
proof -
  have x: "\<forall>c \<in> set (collectCandidates w). accessSync_X_OK w (path c)"
    using scan_ok_final [of w] by (simp add: scan_ok_def collectCandidates_scan_final)
  have ex: "\<And>p. accessSync_X_OK w p \<Longrightarrow> existsSync w p"
    by (auto simp: accessSync_X_OK_def existsSync_def split: option.splits)
  have sel: "\<And>c. findExistingChromium w e = Some c \<Longrightarrow> c \<in> set (collectCandidates w)"
  proof -
    fix c assume c: "findExistingChromium w e = Some c"
    then have "collectCandidates w \<noteq> []"
      by (auto simp: findExistingChromium_def selectCandidate_def)
    from selectCandidate_Some [OF this, of e] c show "c \<in> set (collectCandidates w)"
      by (auto simp: findExistingChromium_def)
  qed
  show ?thesis using x ex sel by blast
qed

theorem candidates_exist_and_executable_witness:
  "path ` set (collectCandidates world_fallback) =
     {''/opt/chrome'', ''/pw/chromium-1205/chrome-linux/chrome'',
      ''/pw/chromium-1198/chrome-linux/chrome'', ''/usr/bin/chromium''}
   \<and> existsSync world_fallback ''/opt/chrome''
   \<and> accessSync_X_OK world_fallback ''/opt/chrome''
   \<and> existsSync world_fallback ''/pw/chromium-1198/chrome-linux/chrome''
   \<and> accessSync_X_OK world_fallback ''/pw/chromium-1198/chrome-linux/chrome''
   \<and> existsSync world_fallback ''/pw/chromium-1199/chrome-linux/chrome''
   \<and> \<not> accessSync_X_OK world_fallback ''/pw/chromium-1199/chrome-linux/chrome''
   \<and> ''/pw/chromium-1199/chrome-linux/chrome'' \<notin> path ` set (collectCandidates world_fallback)"
proof -
  have a: "existsSync world_fallback ''/pw/chromium-1199/chrome-linux/chrome''"
    by (simp add: existsSync_def world_fallback_def)
  have b: "\<not> accessSync_X_OK world_fallback ''/pw/chromium-1199/chrome-linux/chrome''"
    by (simp add: accessSync_X_OK_def world_fallback_def plain_file_def)
  have c: "path ` set (collectCandidates world_fallback) =
     {''/opt/chrome'', ''/pw/chromium-1205/chrome-linux/chrome'',
      ''/pw/chromium-1198/chrome-linux/chrome'', ''/usr/bin/chromium''}"
    by (simp add: scan_candidates_fallback)
  from candidates_exist_and_executable [of world_fallback "Some 1200"]
  have d: "\<forall>c \<in> set (collectCandidates world_fallback).
         existsSync world_fallback (path c) \<and> accessSync_X_OK world_fallback (path c)"
    and e: "''/pw/chromium-1199/chrome-linux/chrome'' \<notin> path ` set (collectCandidates world_fallback)"
    using b by blast+
  from d have f: "\<forall>p \<in> path ` set (collectCandidates world_fallback).
         existsSync world_fallback p \<and> accessSync_X_OK world_fallback p" by blast
  have g: "existsSync world_fallback ''/opt/chrome'' \<and> accessSync_X_OK world_fallback ''/opt/chrome''
     \<and> existsSync world_fallback ''/pw/chromium-1198/chrome-linux/chrome''
     \<and> accessSync_X_OK world_fallback ''/pw/chromium-1198/chrome-linux/chrome''"
    using f unfolding c by blast
  show ?thesis using a b c e g by blast
qed

text \<open>
  Claim C8. When the expected path does not exist and no candidate is found: with
  \<open>allowInstall\<close> the installer is run, the expected path is computed and checked again in
  the environment the installer left, and the result is status \<open>installed\<close> if the installer
  exited with 0 and the path now exists, the error \<open>INSTALL_FAILED\<close> otherwise; without
  \<open>allowInstall\<close> the result is status \<open>missing\<close> and the installer is not run.
\<close>

theorem resolveChromium_nothing_found:
  assumes "chromiumOption w opts = Inr h"
    and "\<not> path_exists w (getDefaultChromiumPath w (Some h))"
    and "findExistingChromium w (extractRevisionFromPath (getDefaultChromiumPath w (Some h))) = None"
  shows "(allowInstall opts \<longrightarrow>
            resolveChromium spawnInstall w opts =
              ([ScanCandidates, RunInstaller], snd (spawnInstall w),
               if fst (spawnInstall w) = Some 0
                  \<and> path_exists (snd (spawnInstall w)) (getDefaultChromiumPath (snd (spawnInstall w)) (Some h))
               then Inr \<lparr>status = StatusInstalled,
                         executablePath = the (getDefaultChromiumPath (snd (spawnInstall w)) (Some h)),
                         revision = extractRevisionFromPath (getDefaultChromiumPath (snd (spawnInstall w)) (Some h)),
                         expectedRevision = extractRevisionFromPath (getDefaultChromiumPath (snd (spawnInstall w)) (Some h)),
                         isFallback = False, source = SrcInstall\<rparr>
               else Inl INSTALL_FAILED))
       \<and> (\<not> allowInstall opts \<longrightarrow>
            resolveChromium spawnInstall w opts =
              ([ScanCandidates], w,
               Inr \<lparr>status = StatusMissing,
                    executablePath = path_or_empty (getDefaultChromiumPath w (Some h)),
                    revision = None,
                    expectedRevision = extractRevisionFromPath (getDefaultChromiumPath w (Some h)),
                    isFallback = False, source = SrcMissing\<rparr>))"
  using assms by (simp add: resolveChromium_def resolveWith_def Let_def)

theorem resolveChromium_nothing_found_witness:
  "findExistingChromium world_empty (Some 1200) = None
   \<and> resolveChromium install_succeeds world_empty \<lparr>chromium = Some (), allowInstall = True\<rparr> =
       ([ScanCandidates, RunInstaller], snd (install_succeeds world_empty),
        Inr \<lparr>status = StatusInstalled, executablePath = ''/pw/chromium-1200/chrome-linux/chrome'',
             revision = Some 1200, expectedRevision = Some 1200,
             isFallback = False, source = SrcInstall\<rparr>)
   \<and> resolveChromium install_fails world_empty \<lparr>chromium = Some (), allowInstall = True\<rparr> =
       ([ScanCandidates, RunInstaller], world_empty, Inl INSTALL_FAILED)
   \<and> resolveChromium install_succeeds world_empty \<lparr>chromium = Some (), allowInstall = False\<rparr> =
       ([ScanCandidates], world_empty,
        Inr \<lparr>status = StatusMissing, executablePath = ''/pw/chromium-1200/chrome-linux/chrome'',
             revision = None, expectedRevision = Some 1200,
             isFallback = False, source = SrcMissing\<rparr>)"
proof -
  have a: "\<And>b. chromiumOption world_empty \<lparr>chromium = Some (), allowInstall = b\<rparr> = Inr ()"
    by (simp add: chromiumOption_def)
  have b: "\<not> path_exists world_empty (getDefaultChromiumPath world_empty (Some ()))"
    by (simp add: expected_empty path_exists_def existsSync_def) (simp add: world_empty_def)
  have c: "findExistingChromium world_empty
             (extractRevisionFromPath (getDefaultChromiumPath world_empty (Some ()))) = None"
    by (simp add: findExistingChromium_def scan_candidates_empty selectCandidate_def)
  have d: "findExistingChromium world_empty (Some 1200) = None"
    by (simp add: findExistingChromium_def scan_candidates_empty selectCandidate_def)
  have post: "getDefaultChromiumPath (snd (install_succeeds world_empty)) (Some ())
                = Some ''/pw/chromium-1200/chrome-linux/chrome''"
    by (simp add: getDefaultChromiumPath_def install_succeeds_def world_empty_def)
  have post_ex: "path_exists (snd (install_succeeds world_empty)) (Some ''/pw/chromium-1200/chrome-linux/chrome'')"
    by (simp add: path_exists_def existsSync_def install_succeeds_def)
  have r1: "resolveChromium install_succeeds world_empty \<lparr>chromium = Some (), allowInstall = True\<rparr> =
       ([ScanCandidates, RunInstaller], snd (install_succeeds world_empty),
        Inr \<lparr>status = StatusInstalled, executablePath = ''/pw/chromium-1200/chrome-linux/chrome'',
             revision = Some 1200, expectedRevision = Some 1200,
             isFallback = False, source = SrcInstall\<rparr>)"
    using resolveChromium_nothing_found [OF a b c, of True install_succeeds]
    by (simp add: post post_ex extract_1200) (simp add: install_succeeds_def)
  have r2: "resolveChromium install_fails world_empty \<lparr>chromium = Some (), allowInstall = True\<rparr> =
       ([ScanCandidates, RunInstaller], world_empty, Inl INSTALL_FAILED)"
    using resolveChromium_nothing_found [OF a b c, of True install_fails]
    by (simp add: install_fails_def)
  have r3: "resolveChromium install_succeeds world_empty \<lparr>chromium = Some (), allowInstall = False\<rparr> =
       ([ScanCandidates], world_empty,
        Inr \<lparr>status = StatusMissing, executablePath = ''/pw/chromium-1200/chrome-linux/chrome'',
             revision = None, expectedRevision = Some 1200,
             isFallback = False, source = SrcMissing\<rparr>)"
    using resolveChromium_nothing_found [OF a b c, of False install_succeeds]
    by (simp add: expected_empty extract_1200 path_or_empty_def)
  show ?thesis using d r1 r2 r3 by simp
qed

text \<open>
  Claim C9, as the code has it. A candidate from an environment override carries no
  revision and scores \<open>MAX_SAFE_INTEGER\<close>. So, when the expected revision \<open>R\<close> is known
  and the list holds a cache candidate whose revision is less than \<open>MAX_SAFE_INTEGER\<close>
  away from \<open>R\<close>, the selected candidate has a revision and is not an environment
  override.
\<close>

theorem env_override_not_preferred:
  assumes "c \<in> set (collectCandidates w)"
    and "candidate.source c = SrcCache"
    and "candidate.revision c = Some r"
    and "\<bar>r - R\<bar> < MAX_SAFE_INTEGER"
  shows "(\<forall>x \<in> set (collectCandidates w). candidate.source x = SrcEnv \<longrightarrow>
            candidate.revision x = None \<and> score (Some R) x = MAX_SAFE_INTEGER)
         \<and> (\<exists>pick. findExistingChromium w (Some R) = Some pick
               \<and> candidate.source pick \<noteq> SrcEnv \<and> candidate.revision pick \<noteq> None)"
proof -
  have env: "\<forall>x \<in> set (collectCandidates w). candidate.source x = SrcEnv \<longrightarrow>
            candidate.revision x = None \<and> score (Some R) x = MAX_SAFE_INTEGER"
    using scan_ok_final [of w]
    by (auto simp: scan_ok_def collectCandidates_scan_final score_unknown)
  from selected_score_le [OF assms(1), of "Some R"] obtain pick where
    p: "selectCandidate (Some R) (collectCandidates w) = Some pick"
       "pick \<in> set (collectCandidates w)" "score (Some R) pick \<le> score (Some R) c" by blast
  from p(3) assms(3,4) have lt: "score (Some R) pick < MAX_SAFE_INTEGER"
    by (simp add: score_known)
  then have rv: "candidate.revision pick \<noteq> None" using score_unknown [of pick "Some R"] by auto
  have src: "candidate.source pick \<noteq> SrcEnv"
  proof
    assume "candidate.source pick = SrcEnv"
    with env p(2) have "candidate.revision pick = None" by simp
    with rv show False by simp
  qed
  have "findExistingChromium w (Some R) = Some pick" using p(1) by (simp add: findExistingChromium_def)
  with rv src env show ?thesis by blast
qed

theorem env_override_not_preferred_witness:
  "\<lparr>path = ''/pw/chromium-1205/chrome-linux/chrome'', revision = Some 1205, source = SrcCache\<rparr>
      \<in> set (collectCandidates world_fallback)
   \<and> \<bar>1205 - 1200\<bar> < MAX_SAFE_INTEGER
   \<and> \<lparr>path = ''/opt/chrome'', revision = None, source = SrcEnv\<rparr> \<in> set (collectCandidates world_fallback)
   \<and> score (Some 1200) \<lparr>path = ''/opt/chrome'', revision = None, source = SrcEnv\<rparr> = MAX_SAFE_INTEGER
   \<and> findExistingChromium world_fallback (Some 1200) =
       Some \<lparr>path = ''/pw/chromium-1198/chrome-linux/chrome'', revision = Some 1198, source = SrcCache\<rparr>"
proof -
  let ?c = "\<lparr>path = ''/pw/chromium-1205/chrome-linux/chrome'', revision = Some 1205, source = SrcCache\<rparr>"
  let ?e = "\<lparr>path = ''/opt/chrome'', revision = None, source = SrcEnv\<rparr>"
  have a: "?c \<in> set (collectCandidates world_fallback)" by (simp add: scan_candidates_fallback)
  have b: "candidate.source ?c = SrcCache" by simp
  have c: "candidate.revision ?c = Some 1205" by simp
  have d: "\<bar>1205 - 1200\<bar> < MAX_SAFE_INTEGER" by (simp add: MAX_SAFE_INTEGER_def)
  have e: "?e \<in> set (collectCandidates world_fallback)" by (simp add: scan_candidates_fallback)
  from env_override_not_preferred [OF a b c d]
  have "score (Some 1200) ?e = MAX_SAFE_INTEGER" using e by auto
  with a d e select_fallback show ?thesis by simp
qed

text \<open>
  Claim C9 as stated fails when the cache candidate's revision is further than
  \<open>MAX_SAFE_INTEGER\<close> from the expected one. With 1200 expected and a cache directory
  \<open>chromium-9007199254742192\<close>, the cache candidate scores \<open>2^53\<close>, one more than the
  environment override, and the environment override is selected.
\<close>

theorem env_override_selected_counterexample:
  "\<lparr>path = ''/pw/chromium-9007199254742192/chrome-linux/chrome'',
     revision = Some 9007199254742192, source = SrcCache\<rparr> \<in> set (collectCandidates world_far)
   \<and> score (Some 1200) \<lparr>path = ''/pw/chromium-9007199254742192/chrome-linux/chrome'',
                         revision = Some 9007199254742192, source = SrcCache\<rparr>
       = 9007199254740992
   \<and> score (Some 1200) \<lparr>path = ''/opt/chrome'', revision = None, source = SrcEnv\<rparr>
       = 9007199254740991
   \<and> findExistingChromium world_far (Some 1200)
       = Some \<lparr>path = ''/opt/chrome'', revision = None, source = SrcEnv\<rparr>"
  by (simp add: findExistingChromium_def scan_candidates_far selectCandidate_def
      rankCandidates_def sort_by_def compareCandidates_def score_def revision_or_zero_def
      MAX_SAFE_INTEGER_def)

text \<open>
  Claim C10. In the sorted list, of two candidates with equal score the one with the
  higher revision (a missing revision counting as 0) stands first; hence no candidate with
  the score of the selected one has a higher revision than the selected one.
\<close>

theorem ties_broken_by_descending_revision:
  "(\<forall>i j. i < length (rankCandidates e cs) \<and> j < length (rankCandidates e cs)
        \<and> score e (rankCandidates e cs ! i) = score e (rankCandidates e cs ! j)
        \<and> revision_or_zero (rankCandidates e cs ! j) < revision_or_zero (rankCandidates e cs ! i)
        \<longrightarrow> i < j)
   \<and> (\<forall>pick c. selectCandidate e cs = Some pick \<and> c \<in> set cs \<and> score e c = score e pick
        \<longrightarrow> revision_or_zero c \<le> revision_or_zero pick)
   \<and> set (rankCandidates e cs) = set cs"
proof (intro conjI allI impI)
  let ?r = "rankCandidates e cs"
  have sorted: "sorted_wrt (\<lambda>a b. compareCandidates e a b \<le> 0) ?r"
    unfolding rankCandidates_def by (rule sorted_sort_by) (rule consistent_compareCandidates)
  fix i j
  assume h: "i < length ?r \<and> j < length ?r \<and> score e (?r ! i) = score e (?r ! j)
        \<and> revision_or_zero (?r ! j) < revision_or_zero (?r ! i)"
  show "i < j"
  proof (rule ccontr)
    assume "\<not> i < j"
    with h have "j < i" by (cases "i = j") auto
    with sorted h have "compareCandidates e (?r ! j) (?r ! i) \<le> 0"
      by (simp add: sorted_wrt_iff_nth_less)
    with h show False by (auto simp: compareCandidates_le_iff)
  qed
next
  fix pick c
  assume h: "selectCandidate e cs = Some pick \<and> c \<in> set cs \<and> score e c = score e pick"
  from selected_score_le [of c cs e] h show "revision_or_zero c \<le> revision_or_zero pick"
    by auto
next
  show "set (rankCandidates e cs) = set cs" by (simp add: rankCandidates_def set_sort_by)
qed

theorem ties_broken_by_descending_revision_witness:
  "score (Some 1200) cand_1198 = score (Some 1200) cand_1202
   \<and> revision_or_zero cand_1198 < revision_or_zero cand_1202
   \<and> rankCandidates (Some 1200) [cand_1198, cand_1202] = [cand_1202, cand_1198]
   \<and> selectCandidate (Some 1200) [cand_1198, cand_1202] = Some cand_1202"
proof -
  have r: "rankCandidates (Some 1200) [cand_1198, cand_1202] = [cand_1202, cand_1198]"
    by (simp add: rankCandidates_def sort_by_def compareCandidates_def score_def
        revision_or_zero_def cand_1198_def cand_1202_def)
  have s: "score (Some 1200) cand_1198 = score (Some 1200) cand_1202"
    by (simp add: score_def cand_1198_def cand_1202_def)
  have v: "revision_or_zero cand_1198 < revision_or_zero cand_1202"
    by (simp add: revision_or_zero_def cand_1198_def cand_1202_def)
  have sel: "selectCandidate (Some 1200) [cand_1198, cand_1202] = Some cand_1202"
    by (simp add: selectCandidate_def r)
  from ties_broken_by_descending_revision [of "Some 1200" "[cand_1198, cand_1202]"]
  have "\<forall>pick c. selectCandidate (Some 1200) [cand_1198, cand_1202] = Some pick
          \<and> c \<in> set [cand_1198, cand_1202] \<and> score (Some 1200) c = score (Some 1200) pick
        \<longrightarrow> revision_or_zero c \<le> revision_or_zero pick" by blast
  with sel s have "revision_or_zero cand_1198 \<le> revision_or_zero cand_1202" by simp
  with r s v sel show ?thesis by simp
qed

section \<open>Properties of the driver\<close>

lemma runBrowser_closes_on_success:
  "launchError b = None \<Longrightarrow> conversionError b = None \<Longrightarrow>
     last (fst (runBrowser b)) = CloseBrowser"
  by (simp add: runBrowser_def split: option.splits)

lemma runBrowser_conversion_error:
  "launchError b = None \<Longrightarrow> conversionError b = Some msg \<Longrightarrow>
     runBrowser b = ([LaunchBrowser, RunConversion], Exited 1)"
  by (simp add: runBrowser_def)

text \<open>
  Claim C6 does not hold of the code. When a statement of the \<open>try\<close> block throws, the
  \<open>catch\<close> block calls \<open>process.exit(1)\<close>; the process ends there and the \<open>finally\<close>
  block, which holds \<open>browser.close()\<close>, does not run. In the run below the input exists,
  Playwright's browser is installed and launches, and the wait for the first page times
  out: the browser is not closed. In the run without an error it is.
\<close>

theorem browser_not_closed_on_conversion_error:
  "convertHTMLToPDF install_fails world_ok () pagination_times_out ''doc.html'' None
     = ([ResolveBrowser, LaunchBrowser, RunConversion], Exited 1)
   \<and> CloseBrowser \<notin> set (fst (convertHTMLToPDF install_fails world_ok () pagination_times_out ''doc.html'' None))
   \<and> convertHTMLToPDF install_fails world_ok () all_fine ''doc.html'' None
     = ([ResolveBrowser, LaunchBrowser, RunConversion, CloseBrowser], Returned)"
proof -
  have env: "environ world_ok ''PDF_SKIP_BROWSER_INSTALL'' \<noteq> Some ''1''" by (simp add: world_ok_def)
  have ex: "existsSync world_ok ''doc.html''" by (simp add: existsSync_def world_ok_def)
  have rd: "readFileSync world_ok ''doc.html''"
    by (simp add: readFileSync_def world_ok_def plain_file_def)
  have 1: "convertHTMLToPDF install_fails world_ok () pagination_times_out ''doc.html'' None
     = ([ResolveBrowser, LaunchBrowser, RunConversion], Exited 1)"
    using env ex rd
    by (simp add: convertHTMLToPDF_def resolve_world_ok Let_def truthy_def runBrowser_def
        pagination_times_out_def)
  have 2: "convertHTMLToPDF install_fails world_ok () all_fine ''doc.html'' None
     = ([ResolveBrowser, LaunchBrowser, RunConversion, CloseBrowser], Returned)"
    using env ex rd
    by (simp add: convertHTMLToPDF_def resolve_world_ok Let_def truthy_def runBrowser_def
        all_fine_def)
  show ?thesis by (simp add: 1 2)
qed

lemma missing_status_needs_skip:
  "snd (snd (resolveChromium spawnInstall w \<lparr>chromium = Some h, allowInstall = a\<rparr>)) = Inr info
     \<Longrightarrow> status info = StatusMissing
     \<Longrightarrow> \<not> a \<and> fst (resolveChromium spawnInstall w \<lparr>chromium = Some h, allowInstall = a\<rparr>)
                  = [ScanCandidates]"
  by (auto simp: resolveChromium_def chromiumOption_def resolveWith_def Let_def
      split: option.splits if_splits)

lemma resolve_empty_install_fails:
  "resolveChromium install_fails world_empty \<lparr>chromium = Some (), allowInstall = True\<rparr> =
       ([ScanCandidates, RunInstaller], world_empty, Inl INSTALL_FAILED)"
proof -
  have n: "\<not> path_exists world_empty (Some ''/pw/chromium-1200/chrome-linux/chrome'')"
    by (simp add: path_exists_def existsSync_def world_empty_def)
  show ?thesis
    by (simp add: resolveChromium_def chromiumOption_def resolveWith_def expected_empty n
        findExistingChromium_def scan_candidates_empty selectCandidate_def Let_def install_fails_def)
qed

text \<open>
  Claim C7, as the code has it. When the input file does not exist, the driver leaves by
  \<open>process.exit(1)\<close> before anything else happens: no event is recorded, so the browser is
  neither resolved nor launched. When the input exists and the resolver reports status
  \<open>missing\<close>, which it does only with \<open>PDF_SKIP_BROWSER_INSTALL=1\<close>, the driver leaves by
  \<open>process.exit(2)\<close> after the scan, without launching. The outcomes of two such runs
  differ, and neither is exit code 0.
\<close>

theorem missing_input_exits_first:
  "(\<not> existsSync w inputFile \<longrightarrow>
      convertHTMLToPDF spawnInstall w h b inputFile customCSS = ([], Exited 1))
   \<and> (existsSync w inputFile
        \<and> snd (snd (resolveChromium spawnInstall w
                      \<lparr>chromium = Some h,
                       allowInstall = (environ w ''PDF_SKIP_BROWSER_INSTALL'' \<noteq> Some ''1'')\<rparr>))
            = Inr info
        \<and> status info = StatusMissing \<longrightarrow>
      environ w ''PDF_SKIP_BROWSER_INSTALL'' = Some ''1''
      \<and> convertHTMLToPDF spawnInstall w h b inputFile customCSS
            = ([ResolveBrowser, ScanCandidates], Exited 2))
   \<and> (\<not> existsSync w inputFile
        \<and> existsSync wm inputFileM
        \<and> snd (snd (resolveChromium spawnInstall wm
                      \<lparr>chromium = Some h,
                       allowInstall = (environ wm ''PDF_SKIP_BROWSER_INSTALL'' \<noteq> Some ''1'')\<rparr>))
            = Inr infoM
        \<and> status infoM = StatusMissing \<longrightarrow>
      snd (convertHTMLToPDF spawnInstall w h b inputFile customCSS)
        \<noteq> snd (convertHTMLToPDF spawnInstall wm h b inputFileM customCSS)
      \<and> snd (convertHTMLToPDF spawnInstall w h b inputFile customCSS) \<noteq> Exited 0
      \<and> snd (convertHTMLToPDF spawnInstall wm h b inputFileM customCSS) \<noteq> Exited 0)"
proof -
  have first: "\<And>w inputFile. \<not> existsSync w inputFile \<Longrightarrow>
      convertHTMLToPDF spawnInstall w h b inputFile customCSS = ([], Exited 1)"
    by (simp add: convertHTMLToPDF_def)
  have second: "\<And>w inputFile info. existsSync w inputFile \<Longrightarrow>
        snd (snd (resolveChromium spawnInstall w
                      \<lparr>chromium = Some h,
                       allowInstall = (environ w ''PDF_SKIP_BROWSER_INSTALL'' \<noteq> Some ''1'')\<rparr>))
            = Inr info \<Longrightarrow> status info = StatusMissing \<Longrightarrow>
      environ w ''PDF_SKIP_BROWSER_INSTALL'' = Some ''1''
      \<and> convertHTMLToPDF spawnInstall w h b inputFile customCSS
            = ([ResolveBrowser, ScanCandidates], Exited 2)"
  proof -
    fix w :: "'a world" and inputFile info
    assume ex: "existsSync w inputFile"
      and r: "snd (snd (resolveChromium spawnInstall w
                      \<lparr>chromium = Some h,
                       allowInstall = (environ w ''PDF_SKIP_BROWSER_INSTALL'' \<noteq> Some ''1'')\<rparr>))
            = Inr info"
      and m: "status info = StatusMissing"
    have both: "\<not> (environ w ''PDF_SKIP_BROWSER_INSTALL'' \<noteq> Some ''1'')
        \<and> fst (resolveChromium spawnInstall w
                      \<lparr>chromium = Some h,
                       allowInstall = (environ w ''PDF_SKIP_BROWSER_INSTALL'' \<noteq> Some ''1'')\<rparr>)
                 = [ScanCandidates]"
      by (rule missing_status_needs_skip [OF r m])
    from both have skip: "environ w ''PDF_SKIP_BROWSER_INSTALL'' = Some ''1''" by simp
    from both have tr: "fst (resolveChromium spawnInstall w
                      \<lparr>chromium = Some h,
                       allowInstall = (environ w ''PDF_SKIP_BROWSER_INSTALL'' \<noteq> Some ''1'')\<rparr>)
                 = [ScanCandidates]"
      by (rule conjunct2)
    have "convertHTMLToPDF spawnInstall w h b inputFile customCSS
            = ([ResolveBrowser, ScanCandidates], Exited 2)"
      using ex r m tr by (simp add: convertHTMLToPDF_def Let_def)
    with skip show "environ w ''PDF_SKIP_BROWSER_INSTALL'' = Some ''1''
      \<and> convertHTMLToPDF spawnInstall w h b inputFile customCSS
            = ([ResolveBrowser, ScanCandidates], Exited 2)" by simp
  qed
  show ?thesis
  proof (intro conjI impI)
    assume "\<not> existsSync w inputFile"
    then show "convertHTMLToPDF spawnInstall w h b inputFile customCSS = ([], Exited 1)"
      by (rule first)
  next
    assume h: "existsSync w inputFile
        \<and> snd (snd (resolveChromium spawnInstall w
                      \<lparr>chromium = Some h,
                       allowInstall = (environ w ''PDF_SKIP_BROWSER_INSTALL'' \<noteq> Some ''1'')\<rparr>))
            = Inr info
        \<and> status info = StatusMissing"
    with second [of w inputFile info]
    show "environ w ''PDF_SKIP_BROWSER_INSTALL'' = Some ''1''"
      and "convertHTMLToPDF spawnInstall w h b inputFile customCSS
            = ([ResolveBrowser, ScanCandidates], Exited 2)" by simp_all
  next
    assume h: "\<not> existsSync w inputFile
        \<and> existsSync wm inputFileM
        \<and> snd (snd (resolveChromium spawnInstall wm
                      \<lparr>chromium = Some h,
                       allowInstall = (environ wm ''PDF_SKIP_BROWSER_INSTALL'' \<noteq> Some ''1'')\<rparr>))
            = Inr infoM
        \<and> status infoM = StatusMissing"
    from h first [of w inputFile]
    have 1: "convertHTMLToPDF spawnInstall w h b inputFile customCSS = ([], Exited 1)" by simp
    from h second [of wm inputFileM infoM]
    have 2: "convertHTMLToPDF spawnInstall wm h b inputFileM customCSS
            = ([ResolveBrowser, ScanCandidates], Exited 2)" by simp
    show "snd (convertHTMLToPDF spawnInstall w h b inputFile customCSS)
        \<noteq> snd (convertHTMLToPDF spawnInstall wm h b inputFileM customCSS)"
      and "snd (convertHTMLToPDF spawnInstall w h b inputFile customCSS) \<noteq> Exited 0"
      and "snd (convertHTMLToPDF spawnInstall wm h b inputFileM customCSS) \<noteq> Exited 0"
      by (simp_all add: 1 2)
  qed
qed

theorem missing_input_exits_first_witness:
  "\<not> existsSync world_skip_install ''nope.html''
   \<and> convertHTMLToPDF install_fails world_skip_install () all_fine ''nope.html'' None = ([], Exited 1)
   \<and> existsSync world_skip_install ''doc.html''
   \<and> environ world_skip_install ''PDF_SKIP_BROWSER_INSTALL'' = Some ''1''
   \<and> convertHTMLToPDF install_fails world_skip_install () all_fine ''doc.html'' None
        = ([ResolveBrowser, ScanCandidates], Exited 2)
   \<and> snd (convertHTMLToPDF install_fails world_skip_install () all_fine ''nope.html'' None)
        \<noteq> snd (convertHTMLToPDF install_fails world_skip_install () all_fine ''doc.html'' None)"
proof -
  let ?info = "\<lparr>status = StatusMissing, executablePath = ''/pw/chromium-1200/chrome-linux/chrome'',
             revision = None, expectedRevision = extractRevisionFromPath (Some ''/pw/chromium-1200/chrome-linux/chrome''),
             isFallback = False, source = SrcMissing\<rparr>"
  have a: "\<not> existsSync world_skip_install ''nope.html''"
    by (simp add: existsSync_def world_skip_install_def world_empty_def)
  have b: "existsSync world_skip_install ''doc.html''"
    by (simp add: existsSync_def world_skip_install_def world_empty_def)
  have env: "(environ world_skip_install ''PDF_SKIP_BROWSER_INSTALL'' \<noteq> Some ''1'') = False"
    by (simp add: world_skip_install_def)
  have c: "snd (snd (resolveChromium install_fails world_skip_install
                      \<lparr>chromium = Some (),
                       allowInstall = (environ world_skip_install ''PDF_SKIP_BROWSER_INSTALL'' \<noteq> Some ''1'')\<rparr>))
            = Inr ?info"
    by (simp only: env resolve_skip_install snd_conv)
  have d: "status ?info = StatusMissing" by simp
  note t = missing_input_exits_first [where w = world_skip_install and inputFile = "''nope.html''"
      and wm = world_skip_install and inputFileM = "''doc.html''"
      and spawnInstall = install_fails and h = "()" and b = all_fine and customCSS = None
      and infoM = ?info]
  from t a have 1: "convertHTMLToPDF install_fails world_skip_install () all_fine ''nope.html'' None = ([], Exited 1)"
    by blast
  from t a b c d
  have 3: "snd (convertHTMLToPDF install_fails world_skip_install () all_fine ''nope.html'' None)
        \<noteq> snd (convertHTMLToPDF install_fails world_skip_install () all_fine ''doc.html'' None)"
    by blast
  note u = missing_input_exits_first [where w = world_skip_install and inputFile = "''doc.html''"
      and spawnInstall = install_fails and h = "()" and b = all_fine and customCSS = None
      and info = ?info]
  from u b c d
  have 2: "environ world_skip_install ''PDF_SKIP_BROWSER_INSTALL'' = Some ''1''
      \<and> convertHTMLToPDF install_fails world_skip_install () all_fine ''doc.html'' None
            = ([ResolveBrowser, ScanCandidates], Exited 2)"
    by blast
  show ?thesis using a b 1 2 3 by blast
qed

text \<open>
  Claim C7 as stated fails: an unavailable browser does not always end the process with a
  code other than that of a missing input. With no browser anywhere and installation not
  switched off, the installer is run; when it fails, \<open>INSTALL_FAILED\<close> leaves
  \<open>convertHTMLToPDF\<close> and the entry point exits with 1. When the launch fails because the
  executable is not found, \<open>convertHTMLToPDF\<close> itself exits with 1. Both are the code of
  a missing input.
\<close>

theorem unavailable_browser_exits_1_counterexample:
  "\<not> existsSync world_empty ''nope.html''
   \<and> convertHTMLToPDF install_fails world_empty () all_fine ''nope.html'' None = ([], Exited 1)
   \<and> existsSync world_empty ''doc.html''
   \<and> collectCandidates world_empty = []
   \<and> convertHTMLToPDF install_fails world_empty () all_fine ''doc.html'' None
        = ([ResolveBrowser, ScanCandidates, RunInstaller], Rejected INSTALL_FAILED)
   \<and> entryPoint install_fails world_empty () all_fine ''doc.html'' None
        = ([ResolveBrowser, ScanCandidates, RunInstaller], Exited 1)
   \<and> existsSync world_ok ''doc.html''
   \<and> convertHTMLToPDF install_fails world_ok () executable_not_found ''doc.html'' None
        = ([ResolveBrowser, LaunchBrowser], Exited 1)"
proof -
  have a: "\<not> existsSync world_empty ''nope.html''" by (simp add: existsSync_def world_empty_def)
  have b: "existsSync world_empty ''doc.html''" by (simp add: existsSync_def world_empty_def)
  have env: "environ world_empty ''PDF_SKIP_BROWSER_INSTALL'' \<noteq> Some ''1''"
    by (simp add: world_empty_def)
  have 1: "convertHTMLToPDF install_fails world_empty () all_fine ''nope.html'' None = ([], Exited 1)"
    using a by (simp add: convertHTMLToPDF_def)
  have 2: "convertHTMLToPDF install_fails world_empty () all_fine ''doc.html'' None
        = ([ResolveBrowser, ScanCandidates, RunInstaller], Rejected INSTALL_FAILED)"
    using b env by (simp add: convertHTMLToPDF_def resolve_empty_install_fails Let_def)
  have 3: "entryPoint install_fails world_empty () all_fine ''doc.html'' None
        = ([ResolveBrowser, ScanCandidates, RunInstaller], Exited 1)"
    by (simp add: entryPoint_def 2)
  have env2: "environ world_ok ''PDF_SKIP_BROWSER_INSTALL'' \<noteq> Some ''1''" by (simp add: world_ok_def)
  have ex: "existsSync world_ok ''doc.html''" by (simp add: existsSync_def world_ok_def)
  have rd: "readFileSync world_ok ''doc.html''"
    by (simp add: readFileSync_def world_ok_def plain_file_def)
  have 4: "convertHTMLToPDF install_fails world_ok () executable_not_found ''doc.html'' None
        = ([ResolveBrowser, LaunchBrowser], Exited 1)"
    using env2 ex rd
    by (simp add: convertHTMLToPDF_def resolve_world_ok Let_def truthy_def runBrowser_def
        executable_not_found_def)
  show ?thesis using a b ex 1 2 3 4 by (simp add: scan_candidates_empty)
qed

end
